theory Spec2Isabelle
  imports Main "HOL-Library.Word"
begin

section \<open>KDAlloc mappings: a shallow embedding of \<^verbatim>\<open>klee/KDAlloc/mapping.h\<close>\<close>

text \<open>
  The header defines one class, \<^verbatim>\<open>klee::kdalloc::Mapping\<close>, a move-only handle on an
  anonymous memory mapping. Its behaviour depends on three things that are not values
  of the program: the platform selected by the preprocessor, whether \<^verbatim>\<open>NDEBUG\<close> is
  defined (it decides whether \<^verbatim>\<open>assert\<close> checks anything), and what the operating
  system answers to each system call. The first two are a \<open>config\<close>; the third is a
  record of \<open>replies\<close> handed to every operation that makes a system call.
\<close>

subsection \<open>Build configuration\<close>

datatype platform =
    Linux_noreplace  \<comment> \<open>\<^verbatim>\<open>__linux__\<close>, \<^verbatim>\<open>LINUX_VERSION_CODE >= KERNEL_VERSION(4, 17, 0)\<close>\<close>
  | Linux_legacy     \<comment> \<open>\<^verbatim>\<open>__linux__\<close>, older kernel headers\<close>
  | FreeBSD          \<comment> \<open>\<^verbatim>\<open>__FreeBSD__\<close>\<close>
  | Apple            \<comment> \<open>\<^verbatim>\<open>__APPLE__\<close>\<close>
  | Windows          \<comment> \<open>\<^verbatim>\<open>_WIN32\<close>: \<^verbatim>\<open>mmap\<close> and \<^verbatim>\<open>munmap\<close> are the header's wrappers\<close>
  | Generic          \<comment> \<open>any other POSIX system\<close>

record config =
  plat :: platform
  asserts :: bool  \<comment> \<open>\<open>True\<close> when \<^verbatim>\<open>NDEBUG\<close> is not defined\<close>

definition is_linux :: "platform \<Rightarrow> bool" where
  "is_linux p = (p = Linux_noreplace \<or> p = Linux_legacy)"

subsection \<open>Addresses, sizes and the object\<close>

type_synonym addr = "64 word"   \<comment> \<open>\<^verbatim>\<open>void *\<close> and \<^verbatim>\<open>std::uintptr_t\<close>\<close>
type_synonym csize = "64 word"  \<comment> \<open>\<^verbatim>\<open>std::size_t\<close>\<close>

definition MAP_FAILED :: addr where
  "MAP_FAILED = - 1"

text \<open>
  The two data members, with their default member initialisers
  \<^verbatim>\<open>baseAddress = MAP_FAILED\<close> and \<^verbatim>\<open>size = 0\<close>. The field \<^verbatim>\<open>size\<close> is written
  \<open>size'\<close> here, \<open>size\<close> being a constant of HOL.
\<close>

record Mapping =
  baseAddress :: addr
  size' :: csize

definition Mapping_default :: Mapping where
  "Mapping_default = \<lparr>baseAddress = MAP_FAILED, size' = 0\<rparr>"

definition operator_bool :: "Mapping \<Rightarrow> bool" where
  "operator_bool m = (baseAddress m \<noteq> MAP_FAILED)"

subsection \<open>Assertions\<close>

text \<open>
  A failed \<^verbatim>\<open>assert\<close> ends the process. Each assertion of the header is a constructor;
  an operation returns \<open>Inl\<close> of it when it fires, which it does only when
  \<open>asserts\<close> holds.
\<close>

datatype assertion =
    Not_unmapped        \<comment> \<open>\<^verbatim>\<open>this->baseAddress == MAP_FAILED\<close>\<close>
  | Munmap_failed       \<comment> \<open>\<^verbatim>\<open>rc == 0 && "munmap failed"\<close>\<close>
  | Madvise_failed      \<comment> \<open>\<^verbatim>\<open>rc == 0 && "madvise failed"\<close>\<close>
  | Minherit_failed     \<comment> \<open>\<^verbatim>\<open>rc == 0 && "minherit failed"\<close>\<close>
  | Invalid_mapping     \<comment> \<open>\<^verbatim>\<open>*this && "Invalid mapping"\<close>\<close>
  | Could_not_recreate  \<comment> \<open>\<^verbatim>\<open>success && "could not recreate the mapping"\<close>\<close>

subsection \<open>The operating system\<close>

text \<open>
  The kernel's view of the process: \<open>live\<close> lists the anonymous mappings that exist,
  each as its base and length; \<open>stray\<close> records every \<^verbatim>\<open>munmap\<close> call that named
  a range which was not a live mapping.
\<close>

record kernel =
  live :: "(addr \<times> csize) list"
  stray :: "(addr \<times> csize) list"

datatype mflag = MAP_ANON | MAP_PRIVATE | MAP_NORESERVE | MAP_FIXED_NOREPLACE | MAP_FIXED | MAP_EXCL

text \<open>
  What the system decides during one operation: where \<^verbatim>\<open>mmap\<close> would put the mapping
  (\<open>None\<close>: it refuses), and the return code of the advice call
  (\<^verbatim>\<open>madvise\<close> or \<^verbatim>\<open>minherit\<close>). No operation of the class calls \<^verbatim>\<open>mmap\<close> twice or
  gives advice twice.
\<close>

record replies =
  mmap_reply :: "addr option"
  advise_rc :: int

text \<open>
  A placement is usable when it is not the null address, not the value of
  \<^verbatim>\<open>MAP_FAILED\<close>, and not the base of a mapping that is already there. The class
  never passes a flag that would let \<^verbatim>\<open>mmap\<close> map at address 0 or over a mapping, and
  the Windows wrapper of lines 46 to 59 turns the null result of \<^verbatim>\<open>VirtualAlloc\<close> into
  \<^verbatim>\<open>MAP_FAILED\<close>.
\<close>

definition usable :: "kernel \<Rightarrow> addr \<Rightarrow> bool" where
  "usable k a = (a \<noteq> 0 \<and> a \<noteq> MAP_FAILED \<and> a \<notin> fst ` set (live k))"

text \<open>
  \<^verbatim>\<open>mmap(addr, length, PROT_READ | PROT_WRITE, flags, -1, 0)\<close>. A placement that is not
  usable counts as a refusal. With \<^verbatim>\<open>MAP_FIXED\<close> the system maps at \<open>hint\<close> or
  nowhere. Without it, \<open>hint\<close> is advisory, also under \<^verbatim>\<open>MAP_FIXED_NOREPLACE\<close>, which
  a running kernel older than the headers does not know and ignores.
\<close>

definition os_mmap :: "kernel \<Rightarrow> addr option \<Rightarrow> addr \<Rightarrow> csize \<Rightarrow> mflag set \<Rightarrow> addr \<times> kernel" where
  "os_mmap k reply hint len flags =
     (case reply of
        None \<Rightarrow> (MAP_FAILED, k)
      | Some a \<Rightarrow>
          if \<not> usable k a \<or> (MAP_FIXED \<in> flags \<and> a \<noteq> hint) then (MAP_FAILED, k)
          else (a, k\<lparr>live := (a, len) # live k\<rparr>))"

text \<open>
  \<^verbatim>\<open>munmap(addr, length)\<close>: a live mapping named exactly is released and the call
  returns 0; any other range is recorded as stray, nothing is released, and the call
  returns -1. Releasing a whole mapping under the base and length it was created with
  is taken to succeed always. The contents of memory, page alignment and protection
  bits are not part of the model.
\<close>

definition os_munmap :: "kernel \<Rightarrow> addr \<Rightarrow> csize \<Rightarrow> int \<times> kernel" where
  "os_munmap k a len =
     (if (a, len) \<in> set (live k) then (0, k\<lparr>live := remove1 (a, len) (live k)\<rparr>)
      else (- 1, k\<lparr>stray := (a, len) # stray k\<rparr>))"

subsection \<open>\<^verbatim>\<open>try_map\<close>\<close>

text \<open>Lines 82 to 94: the flags of the \<^verbatim>\<open>mmap\<close> call.\<close>

definition map_flags :: "platform \<Rightarrow> addr \<Rightarrow> mflag set" where
  "map_flags p base =
     {MAP_ANON, MAP_PRIVATE}
     \<union> (if is_linux p then {MAP_NORESERVE} else {})
     \<union> (if p = Linux_noreplace \<and> base \<noteq> 0 then {MAP_FIXED_NOREPLACE} else {})
     \<union> (if p = FreeBSD \<and> base \<noteq> 0 then {MAP_FIXED, MAP_EXCL} else {})"

text \<open>
  Lines 111 to 130: the advice given after a successful mapping, named by the
  assertion that guards its return code. Windows and other systems give none.
\<close>

definition post_map_advice :: "platform \<Rightarrow> assertion option" where
  "post_map_advice p =
     (if is_linux p then Some Madvise_failed
      else if p = FreeBSD \<or> p = Apple then Some Minherit_failed
      else None)"

text \<open>
  \<^verbatim>\<open>bool try_map(std::uintptr_t baseAddress)\<close>: the result is the returned flag, the
  object and the kernel afterwards.
\<close>

definition try_map ::
  "config \<Rightarrow> replies \<Rightarrow> addr \<Rightarrow> Mapping \<Rightarrow> kernel \<Rightarrow> assertion + (bool \<times> Mapping \<times> kernel)" where
  "try_map cfg orc base m k =
     (if asserts cfg \<and> baseAddress m \<noteq> MAP_FAILED then Inl Not_unmapped
      else
        let (mappedAddress, k1) =
              os_mmap k (mmap_reply orc) base (size' m) (map_flags (plat cfg) base)
        in
          if mappedAddress = MAP_FAILED then Inr (False, m\<lparr>baseAddress := MAP_FAILED\<rparr>, k1)
          else if base \<noteq> 0 \<and> base \<noteq> mappedAddress then
            (let (rc, k2) = os_munmap k1 mappedAddress (size' m)
             in if asserts cfg \<and> rc \<noteq> 0 then Inl Munmap_failed
                else Inr (False, m\<lparr>baseAddress := MAP_FAILED\<rparr>, k2))
          else
            (case post_map_advice (plat cfg) of
               None \<Rightarrow> Inr (True, m\<lparr>baseAddress := mappedAddress\<rparr>, k1)
             | Some a \<Rightarrow>
                 if asserts cfg \<and> advise_rc orc \<noteq> 0 then Inl a
                 else Inr (True, m\<lparr>baseAddress := mappedAddress\<rparr>, k1)))"

subsection \<open>Constructors, accessors, \<^verbatim>\<open>clear\<close>, destructor\<close>

text \<open>
  \<^verbatim>\<open>Mapping(std::uintptr_t baseAddress, std::size_t size)\<close>: \<^verbatim>\<open>size\<close> is initialised,
  \<^verbatim>\<open>baseAddress\<close> takes its default, and the flag returned by \<^verbatim>\<open>try_map\<close> is dropped.
  \<^verbatim>\<open>Mapping(std::size_t size)\<close> delegates with address 0.
\<close>

definition Mapping_at ::
  "config \<Rightarrow> replies \<Rightarrow> addr \<Rightarrow> csize \<Rightarrow> kernel \<Rightarrow> assertion + (Mapping \<times> kernel)" where
  "Mapping_at cfg orc base sz k =
     (case try_map cfg orc base \<lparr>baseAddress = MAP_FAILED, size' = sz\<rparr> k of
        Inl a \<Rightarrow> Inl a
      | Inr (success, m, k') \<Rightarrow> Inr (m, k'))"

definition Mapping_sized ::
  "config \<Rightarrow> replies \<Rightarrow> csize \<Rightarrow> kernel \<Rightarrow> assertion + (Mapping \<times> kernel)" where
  "Mapping_sized cfg orc sz k = Mapping_at cfg orc 0 sz k"

text \<open>
  Lines 147 to 151, the move constructor: the new object and the source afterwards.
\<close>

definition move_ctor :: "Mapping \<Rightarrow> Mapping \<times> Mapping" where
  "move_ctor other =
     (\<lparr>baseAddress = baseAddress other, size' = size' other\<rparr>,
      other\<lparr>baseAddress := MAP_FAILED, size' := 0\<rparr>)"

text \<open>
  Move assignment compares the addresses of the two objects, so it is modelled on a
  store of objects: \<open>this\<close> and \<open>other\<close> are their places in it. When they differ
  \<^verbatim>\<open>swap(other.baseAddress, baseAddress)\<close> runs, then \<^verbatim>\<open>swap(other.size, size)\<close>. A
  place that holds no object is not a legal operand; the store is then left as it is.
\<close>

type_synonym store = "nat \<rightharpoonup> Mapping"

definition swap_baseAddress :: "nat \<Rightarrow> nat \<Rightarrow> store \<Rightarrow> store" where
  "swap_baseAddress a b h =
     (case (h a, h b) of
        (Some x, Some y) \<Rightarrow>
          h(a \<mapsto> x\<lparr>baseAddress := baseAddress y\<rparr>, b \<mapsto> y\<lparr>baseAddress := baseAddress x\<rparr>)
      | _ \<Rightarrow> h)"

definition swap_size :: "nat \<Rightarrow> nat \<Rightarrow> store \<Rightarrow> store" where
  "swap_size a b h =
     (case (h a, h b) of
        (Some x, Some y) \<Rightarrow> h(a \<mapsto> x\<lparr>size' := size' y\<rparr>, b \<mapsto> y\<lparr>size' := size' x\<rparr>)
      | _ \<Rightarrow> h)"

definition move_assign :: "nat \<Rightarrow> nat \<Rightarrow> store \<Rightarrow> store" where
  "move_assign this other h =
     (if other \<noteq> this then swap_size other this (swap_baseAddress other this h) else h)"

text \<open>
  Lines 161 to 166: \<^verbatim>\<open>getBaseAddress\<close> asserts \<^verbatim>\<open>*this\<close> and returns the field;
  \<^verbatim>\<open>getSize\<close> returns the field and asserts nothing.
\<close>

definition getBaseAddress :: "config \<Rightarrow> Mapping \<Rightarrow> assertion + addr" where
  "getBaseAddress cfg m =
     (if asserts cfg \<and> \<not> operator_bool m then Inl Invalid_mapping else Inr (baseAddress m))"

definition getSize :: "Mapping \<Rightarrow> csize" where
  "getSize m = size' m"

text \<open>
  Lines 168 to 182: \<^verbatim>\<open>clear\<close>. On Linux one \<^verbatim>\<open>madvise(..., MADV_DONTNEED)\<close>, whose return
  code is the advice reply. Elsewhere \<^verbatim>\<open>munmap\<close>, then \<^verbatim>\<open>try_map\<close> at the address the
  object had.
\<close>

definition clear ::
  "config \<Rightarrow> replies \<Rightarrow> Mapping \<Rightarrow> kernel \<Rightarrow> assertion + (Mapping \<times> kernel)" where
  "clear cfg orc m k =
     (if asserts cfg \<and> \<not> operator_bool m then Inl Invalid_mapping
      else if is_linux (plat cfg) then
        (if asserts cfg \<and> advise_rc orc \<noteq> 0 then Inl Madvise_failed else Inr (m, k))
      else
        let address = baseAddress m;
            (rc, k1) = os_munmap k (baseAddress m) (size' m)
        in
          if asserts cfg \<and> rc \<noteq> 0 then Inl Munmap_failed
          else
            (case try_map cfg orc address (m\<lparr>baseAddress := MAP_FAILED\<rparr>) k1 of
               Inl a \<Rightarrow> Inl a
             | Inr (success, m', k2) \<Rightarrow>
                 if asserts cfg \<and> \<not> success then Inl Could_not_recreate
                 else Inr (m', k2)))"

text \<open>Lines 186 to 191: the destructor, which returns the kernel it leaves.\<close>

definition dtor :: "config \<Rightarrow> Mapping \<Rightarrow> kernel \<Rightarrow> assertion + kernel" where
  "dtor cfg m k =
     (if operator_bool m then
        (let (rc, k1) = os_munmap k (baseAddress m) (size' m)
         in if asserts cfg \<and> rc \<noteq> 0 then Inl Munmap_failed else Inr k1)
      else Inr k)"

subsection \<open>Programs over several objects\<close>

text \<open>
  A process holds any number of \<^verbatim>\<open>Mapping\<close> objects and one kernel. An \<open>op\<close> is one
  use of the class's interface on objects named by their places in the store. The
  language rules out constructing an object where one lives and using one that does
  not exist; such an \<open>op\<close> leaves the world as it is. The destructor ends the
  object's lifetime, so it runs once for each object.
\<close>

record world =
  objs :: store
  kern :: kernel

datatype op =
    New_default nat            \<comment> \<open>\<^verbatim>\<open>Mapping()\<close>\<close>
  | New_at nat addr csize replies  \<comment> \<open>\<^verbatim>\<open>Mapping(baseAddress, size)\<close>\<close>
  | New_moved nat nat          \<comment> \<open>\<^verbatim>\<open>Mapping(std::move(other))\<close>: the new object, then \<open>other\<close>\<close>
  | Assign_moved nat nat       \<comment> \<open>\<^verbatim>\<open>*this = std::move(other)\<close>: \<open>this\<close>, then \<open>other\<close>\<close>
  | Clear nat replies          \<comment> \<open>\<^verbatim>\<open>clear()\<close>\<close>
  | Delete nat                 \<comment> \<open>\<^verbatim>\<open>~Mapping()\<close>\<close>

fun step :: "config \<Rightarrow> op \<Rightarrow> world \<Rightarrow> assertion + world" where
  "step cfg (New_default i) w =
     (case objs w i of
        None \<Rightarrow> Inr (w\<lparr>objs := (objs w)(i \<mapsto> Mapping_default)\<rparr>)
      | Some _ \<Rightarrow> Inr w)"
| "step cfg (New_at i base sz orc) w =
     (case objs w i of
        None \<Rightarrow>
          (case Mapping_at cfg orc base sz (kern w) of
             Inl a \<Rightarrow> Inl a
           | Inr (m, k) \<Rightarrow> Inr \<lparr>objs = (objs w)(i \<mapsto> m), kern = k\<rparr>)
      | Some _ \<Rightarrow> Inr w)"
| "step cfg (New_moved i j) w =
     (case (objs w i, objs w j) of
        (None, Some other) \<Rightarrow>
          Inr (w\<lparr>objs := (objs w)(i \<mapsto> fst (move_ctor other), j \<mapsto> snd (move_ctor other))\<rparr>)
      | _ \<Rightarrow> Inr w)"
| "step cfg (Assign_moved i j) w = Inr (w\<lparr>objs := move_assign i j (objs w)\<rparr>)"
| "step cfg (Clear i orc) w =
     (case objs w i of
        None \<Rightarrow> Inr w
      | Some m \<Rightarrow>
          (case clear cfg orc m (kern w) of
             Inl a \<Rightarrow> Inl a
           | Inr (m', k) \<Rightarrow> Inr \<lparr>objs = (objs w)(i \<mapsto> m'), kern = k\<rparr>))"
| "step cfg (Delete i) w =
     (case objs w i of
        None \<Rightarrow> Inr w
      | Some m \<Rightarrow>
          (case dtor cfg m (kern w) of
             Inl a \<Rightarrow> Inl a
           | Inr k \<Rightarrow> Inr \<lparr>objs = (objs w)(i := None), kern = k\<rparr>))"

fun run :: "config \<Rightarrow> op list \<Rightarrow> world \<Rightarrow> assertion + world" where
  "run cfg [] w = Inr w"
| "run cfg (x # xs) w = (case step cfg x w of Inl a \<Rightarrow> Inl a | Inr w' \<Rightarrow> run cfg xs w')"

text \<open>
  The process starts with no \<^verbatim>\<open>Mapping\<close> object; \<open>ms\<close> are the mappings that exist
  for other reasons.
\<close>

definition start :: "(addr \<times> csize) list \<Rightarrow> world" where
  "start ms = \<lparr>objs = Map.empty, kern = \<lparr>live = ms, stray = []\<rparr>\<rparr>"

text \<open>
  Ownership: every valid object's range is a live mapping, two valid objects never
  have the same base, and every stray \<^verbatim>\<open>munmap\<close> named the address \<^verbatim>\<open>MAP_FAILED\<close>,
  where no mapping ever is.
\<close>

definition owned :: "world \<Rightarrow> bool" where
  "owned w =
     ((\<forall>i m. objs w i = Some m \<and> operator_bool m \<longrightarrow>
          (baseAddress m, size' m) \<in> set (live (kern w))) \<and>
      (\<forall>i j m n. i \<noteq> j \<and> objs w i = Some m \<and> objs w j = Some n \<and>
          operator_bool m \<and> operator_bool n \<longrightarrow> baseAddress m \<noteq> baseAddress n) \<and>
      (\<forall>r \<in> set (stray (kern w)). fst r = MAP_FAILED))"

section \<open>Supporting lemmas\<close>

subsection \<open>System calls and \<^verbatim>\<open>try_map\<close>\<close>

lemma MAP_FAILED_nonzero: "MAP_FAILED \<noteq> 0"
  by (simp add: MAP_FAILED_def)

lemma os_munmap_just_mapped:
  "os_munmap (k\<lparr>live := (a, n) # live k\<rparr>) a n = (0, k)"
  by (simp add: os_munmap_def)

lemma os_mmap_cases:
  "os_mmap k reply hint len flags = (a, k1) \<Longrightarrow>
     (a = MAP_FAILED \<and> k1 = k) \<or>
     (a \<noteq> MAP_FAILED \<and> usable k a \<and> reply = Some a \<and> k1 = k\<lparr>live := (a, len) # live k\<rparr>)"
  by (auto simp: os_mmap_def usable_def split: option.splits if_splits)

lemma try_map_False:
  assumes "try_map cfg orc base m k = Inr (False, m', k')"
  shows "m' = m\<lparr>baseAddress := MAP_FAILED\<rparr> \<and> k' = k"
proof -
  obtain a k1 where om: "os_mmap k (mmap_reply orc) base (size' m) (map_flags (plat cfg) base) = (a, k1)"
    by (cases "os_mmap k (mmap_reply orc) base (size' m) (map_flags (plat cfg) base)")
  from os_mmap_cases [OF om] assms om show ?thesis
    by (auto simp: try_map_def os_munmap_just_mapped split: if_splits option.splits)
qed

lemma try_map_True:
  assumes "try_map cfg orc base m k = Inr (True, m', k')"
  shows "\<exists>a. usable k a \<and> (base \<noteq> 0 \<longrightarrow> a = base) \<and> m' = m\<lparr>baseAddress := a\<rparr> \<and>
             k' = k\<lparr>live := (a, size' m) # live k\<rparr>"
proof -
  obtain a k1 where om: "os_mmap k (mmap_reply orc) base (size' m) (map_flags (plat cfg) base) = (a, k1)"
    by (cases "os_mmap k (mmap_reply orc) base (size' m) (map_flags (plat cfg) base)")
  from os_mmap_cases [OF om] assms om show ?thesis
    by (auto simp: try_map_def os_munmap_just_mapped split: if_splits option.splits)
qed

lemma try_map_no_munmap_failure: "try_map cfg orc base m k \<noteq> Inl Munmap_failed"
proof -
  obtain a k1 where om: "os_mmap k (mmap_reply orc) base (size' m) (map_flags (plat cfg) base) = (a, k1)"
    by (cases "os_mmap k (mmap_reply orc) base (size' m) (map_flags (plat cfg) base)")
  from os_mmap_cases [OF om] om show ?thesis
    by (auto simp: try_map_def os_munmap_just_mapped post_map_advice_def split: if_splits option.splits)
qed

lemma try_map_refused:
  assumes "baseAddress m = MAP_FAILED"
    and "fst (os_mmap k (mmap_reply orc) base (size' m) (map_flags (plat cfg) base)) = MAP_FAILED"
  shows "try_map cfg orc base m k = Inr (False, m, k)"
proof -
  obtain a k1 where om: "os_mmap k (mmap_reply orc) base (size' m) (map_flags (plat cfg) base) = (a, k1)"
    by (cases "os_mmap k (mmap_reply orc) base (size' m) (map_flags (plat cfg) base)")
  with assms(2) have a: "a = MAP_FAILED" by simp
  with os_mmap_cases [OF om] have "k1 = k" by simp
  with om a assms(1) show ?thesis by (simp add: try_map_def)
qed

lemma try_map_misplaced:
  assumes "baseAddress m = MAP_FAILED"
    and "os_mmap k (mmap_reply orc) base (size' m) (map_flags (plat cfg) base) = (a, k1)"
    and "a \<noteq> MAP_FAILED" and "base \<noteq> 0" and "base \<noteq> a"
  shows "try_map cfg orc base m k = Inr (False, m, k)"
proof -
  from os_mmap_cases [OF assms(2)] assms(3) have k1: "k1 = k\<lparr>live := (a, size' m) # live k\<rparr>" by simp
  have "os_munmap k1 a (size' m) = (0, k)" unfolding k1 by (rule os_munmap_just_mapped)
  with assms show ?thesis by (simp add: try_map_def)
qed

subsection \<open>Records\<close>

lemma Mapping_upd_base:
  "(m::Mapping)\<lparr>baseAddress := a\<rparr> = \<lparr>baseAddress = a, size' = size' m\<rparr>"
  by (cases m) simp

lemma Mapping_upd_both:
  "(s::Mapping)\<lparr>baseAddress := baseAddress t, size' := size' t\<rparr> = t"
  by (cases s, cases t) simp

subsection \<open>Move assignment\<close>

lemma move_assign_swap:
  assumes "h this = Some t" and "h other = Some s" and "other \<noteq> this"
  shows "move_assign this other h = h(other \<mapsto> t, this \<mapsto> s)"
  using assms
  by (simp add: move_assign_def swap_size_def swap_baseAddress_def Mapping_upd_both)

lemma move_assign_same:
  assumes "h this = None \<or> h other = None \<or> other = this"
  shows "move_assign this other h = h"
  using assms
  by (auto simp: move_assign_def swap_size_def swap_baseAddress_def split: option.splits)

subsection \<open>\<^verbatim>\<open>clear\<close>\<close>

lemma clear_fallback:
  assumes "\<not> is_linux (plat cfg)" and "os_munmap k (baseAddress m) (size' m) = (rc, k1)"
  shows "clear cfg orc m k =
     (if asserts cfg \<and> \<not> operator_bool m then Inl Invalid_mapping
      else if asserts cfg \<and> rc \<noteq> 0 then Inl Munmap_failed
      else (case try_map cfg orc (baseAddress m) (m\<lparr>baseAddress := MAP_FAILED\<rparr>) k1 of
              Inl a \<Rightarrow> Inl a
            | Inr (success, m', k2) \<Rightarrow>
                if asserts cfg \<and> \<not> success then Inl Could_not_recreate else Inr (m', k2)))"
  using assms by (simp add: clear_def)

lemma clear_linux:
  assumes "is_linux (plat cfg)"
  shows "clear cfg orc m k =
     (if asserts cfg \<and> \<not> operator_bool m then Inl Invalid_mapping
      else if asserts cfg \<and> advise_rc orc \<noteq> 0 then Inl Madvise_failed else Inr (m, k))"
  using assms by (simp add: clear_def)

lemma clear_Inr:
  assumes "clear cfg orc m k = Inr (m', k')"
  shows "(is_linux (plat cfg) \<and> m' = m \<and> k' = k) \<or>
         (\<not> is_linux (plat cfg) \<and>
          (\<exists>rc k1. os_munmap k (baseAddress m) (size' m) = (rc, k1) \<and>
             ((\<not> asserts cfg \<and> m' = m\<lparr>baseAddress := MAP_FAILED\<rparr> \<and> k' = k1) \<or>
              (\<exists>a. usable k1 a \<and> (baseAddress m \<noteq> 0 \<longrightarrow> a = baseAddress m) \<and>
                   m' = m\<lparr>baseAddress := a\<rparr> \<and> k' = k1\<lparr>live := (a, size' m) # live k1\<rparr>))))"
proof (cases "is_linux (plat cfg)")
  case True
  with assms show ?thesis by (simp add: clear_linux split: if_splits)
next
  case False
  obtain rc k1 where um: "os_munmap k (baseAddress m) (size' m) = (rc, k1)"
    by (cases "os_munmap k (baseAddress m) (size' m)")
  note eq = clear_fallback [OF False um, of orc]
  show ?thesis
  proof (cases "try_map cfg orc (baseAddress m) (m\<lparr>baseAddress := MAP_FAILED\<rparr>) k1")
    case (Inl a)
    with eq assms show ?thesis by (simp split: if_splits)
  next
    case (Inr r)
    obtain b m2 k2 where r: "r = (b, m2, k2)" by (cases r)
    from eq assms Inr r have res: "m2 = m'" "k2 = k'" and ok: "asserts cfg \<longrightarrow> b"
      by (simp_all split: if_splits)
    show ?thesis
    proof (cases b)
      case True
      from try_map_True [of cfg orc "baseAddress m" "m\<lparr>baseAddress := MAP_FAILED\<rparr>" k1 m' k']
        Inr r res True
      obtain a where "usable k1 a" "baseAddress m \<noteq> 0 \<longrightarrow> a = baseAddress m"
        "m' = m\<lparr>baseAddress := a\<rparr>" "k' = k1\<lparr>live := (a, size' m) # live k1\<rparr>"
        by auto
      with False um show ?thesis by blast
    next
      case nb: False
      from try_map_False [of cfg orc "baseAddress m" "m\<lparr>baseAddress := MAP_FAILED\<rparr>" k1 m' k']
        Inr r res nb
      have "m' = m\<lparr>baseAddress := MAP_FAILED\<rparr>" "k' = k1" by simp_all
      with False um ok nb show ?thesis by blast
    qed
  qed
qed

lemma clear_Munmap_failed:
  assumes "clear cfg orc m k = Inl Munmap_failed"
  shows "operator_bool m \<and> fst (os_munmap k (baseAddress m) (size' m)) \<noteq> 0"
  using assms try_map_no_munmap_failure [of cfg orc "baseAddress m" "m\<lparr>baseAddress := MAP_FAILED\<rparr>"]
  by (auto simp: clear_def split: if_splits sum.splits prod.splits)

subsection \<open>Ownership is invariant\<close>

lemma os_munmap_cases:
  "os_munmap k a n = (rc, k1) \<Longrightarrow>
     ((a, n) \<in> set (live k) \<and> rc = 0 \<and> k1 = k\<lparr>live := remove1 (a, n) (live k)\<rparr>) \<or>
     ((a, n) \<notin> set (live k) \<and> rc = - 1 \<and> k1 = k\<lparr>stray := (a, n) # stray k\<rparr>)"
  by (auto simp: os_munmap_def split: if_splits)

lemma owned_put_invalid:
  assumes "owned \<lparr>objs = h, kern = k\<rparr>" and "\<not> operator_bool m'"
  shows "owned \<lparr>objs = h(i \<mapsto> m'), kern = k\<rparr>"
  using assms unfolding owned_def by (auto split: if_splits)

lemma owned_drop:
  assumes "owned \<lparr>objs = h, kern = k\<rparr>"
  shows "owned \<lparr>objs = h(i := None), kern = k\<rparr>"
  using assms unfolding owned_def by (auto split: if_splits)

lemma owned_release:
  assumes ow: "owned \<lparr>objs = h, kern = k\<rparr>" and hi: "h i = Some m"
    and um: "os_munmap k (baseAddress m) (size' m) = (rc, k1)"
  shows "owned \<lparr>objs = h(i \<mapsto> m\<lparr>baseAddress := MAP_FAILED\<rparr>), kern = k1\<rparr>"
    and "operator_bool m \<Longrightarrow> rc = 0"
proof -
  from ow hi show "operator_bool m \<Longrightarrow> rc = 0"
    using os_munmap_cases [OF um] unfolding owned_def by auto
  have others: "(baseAddress n, size' n) \<in> set (live k) \<and> baseAddress n \<noteq> baseAddress m"
    if "j \<noteq> i" "h j = Some n" "operator_bool n" for j n
  proof (cases "operator_bool m")
    case True
    with ow hi that show ?thesis unfolding owned_def by (metis world.select_convs)
  next
    case False
    with ow that show ?thesis unfolding owned_def operator_bool_def by (metis world.select_convs)
  qed
  from os_munmap_cases [OF um] show "owned \<lparr>objs = h(i \<mapsto> m\<lparr>baseAddress := MAP_FAILED\<rparr>), kern = k1\<rparr>"
  proof
    assume a: "(baseAddress m, size' m) \<in> set (live k) \<and> rc = 0 \<and> k1 = k\<lparr>live := remove1 (baseAddress m, size' m) (live k)\<rparr>"
    show ?thesis unfolding owned_def
    proof (intro conjI allI impI ballI)
      fix j n assume "objs \<lparr>objs = h(i \<mapsto> m\<lparr>baseAddress := MAP_FAILED\<rparr>), kern = k1\<rparr> j = Some n \<and> operator_bool n"
      then have "j \<noteq> i" "h j = Some n" "operator_bool n"
        by (auto simp: operator_bool_def split: if_splits)
      from others [OF this] a
      show "(baseAddress n, size' n) \<in> set (live (kern \<lparr>objs = h(i \<mapsto> m\<lparr>baseAddress := MAP_FAILED\<rparr>), kern = k1\<rparr>))"
        by auto
    next
      fix j j' n n'
      assume "j \<noteq> j' \<and> objs \<lparr>objs = h(i \<mapsto> m\<lparr>baseAddress := MAP_FAILED\<rparr>), kern = k1\<rparr> j = Some n \<and>
         objs \<lparr>objs = h(i \<mapsto> m\<lparr>baseAddress := MAP_FAILED\<rparr>), kern = k1\<rparr> j' = Some n' \<and>
         operator_bool n \<and> operator_bool n'"
      then have "j \<noteq> j'" "h j = Some n" "h j' = Some n'" "operator_bool n" "operator_bool n'"
        by (auto simp: operator_bool_def split: if_splits)
      with ow show "baseAddress n \<noteq> baseAddress n'" unfolding owned_def by (metis world.select_convs)
    next
      fix r assume "r \<in> set (stray (kern \<lparr>objs = h(i \<mapsto> m\<lparr>baseAddress := MAP_FAILED\<rparr>), kern = k1\<rparr>))"
      with a ow show "fst r = MAP_FAILED" unfolding owned_def by auto
    qed
  next
    assume a: "(baseAddress m, size' m) \<notin> set (live k) \<and> rc = - 1 \<and> k1 = k\<lparr>stray := (baseAddress m, size' m) # stray k\<rparr>"
    with ow hi have inv: "\<not> operator_bool m" unfolding owned_def by auto
    show ?thesis unfolding owned_def
    proof (intro conjI allI impI ballI)
      fix j n assume "objs \<lparr>objs = h(i \<mapsto> m\<lparr>baseAddress := MAP_FAILED\<rparr>), kern = k1\<rparr> j = Some n \<and> operator_bool n"
      then have "j \<noteq> i" "h j = Some n" "operator_bool n"
        by (auto simp: operator_bool_def split: if_splits)
      from others [OF this] a
      show "(baseAddress n, size' n) \<in> set (live (kern \<lparr>objs = h(i \<mapsto> m\<lparr>baseAddress := MAP_FAILED\<rparr>), kern = k1\<rparr>))"
        by auto
    next
      fix j j' n n'
      assume "j \<noteq> j' \<and> objs \<lparr>objs = h(i \<mapsto> m\<lparr>baseAddress := MAP_FAILED\<rparr>), kern = k1\<rparr> j = Some n \<and>
         objs \<lparr>objs = h(i \<mapsto> m\<lparr>baseAddress := MAP_FAILED\<rparr>), kern = k1\<rparr> j' = Some n' \<and>
         operator_bool n \<and> operator_bool n'"
      then have "j \<noteq> j'" "h j = Some n" "h j' = Some n'" "operator_bool n" "operator_bool n'"
        by (auto simp: operator_bool_def split: if_splits)
      with ow show "baseAddress n \<noteq> baseAddress n'" unfolding owned_def by (metis world.select_convs)
    next
      fix r assume "r \<in> set (stray (kern \<lparr>objs = h(i \<mapsto> m\<lparr>baseAddress := MAP_FAILED\<rparr>), kern = k1\<rparr>))"
      with a ow inv show "fst r = MAP_FAILED" unfolding owned_def operator_bool_def by auto
    qed
  qed
qed

lemma owned_iff:
  "owned \<lparr>objs = h, kern = k\<rparr> =
     ((\<forall>i m. h i = Some m \<and> operator_bool m \<longrightarrow> (baseAddress m, size' m) \<in> set (live k)) \<and>
      (\<forall>i j m n. i \<noteq> j \<and> h i = Some m \<and> h j = Some n \<and> operator_bool m \<and> operator_bool n
          \<longrightarrow> baseAddress m \<noteq> baseAddress n) \<and>
      (\<forall>r \<in> set (stray k). fst r = MAP_FAILED))"
  by (simp add: owned_def)

lemma owned_acquire:
  assumes ow: "owned \<lparr>objs = h, kern = k\<rparr>"
    and free: "\<forall>m. h i = Some m \<longrightarrow> \<not> operator_bool m"
    and us: "usable k a"
  shows "owned \<lparr>objs = h(i \<mapsto> \<lparr>baseAddress = a, size' = n\<rparr>), kern = k\<lparr>live := (a, n) # live k\<rparr>\<rparr>"
proof -
  from ow have o1: "\<And>j x. h j = Some x \<Longrightarrow> operator_bool x \<Longrightarrow> (baseAddress x, size' x) \<in> set (live k)"
    and o2: "\<And>j j' x x'. j \<noteq> j' \<Longrightarrow> h j = Some x \<Longrightarrow> h j' = Some x' \<Longrightarrow> operator_bool x \<Longrightarrow>
                operator_bool x' \<Longrightarrow> baseAddress x \<noteq> baseAddress x'"
    and o3: "\<And>r. r \<in> set (stray k) \<Longrightarrow> fst r = MAP_FAILED"
    unfolding owned_iff by blast+
  have fresh: "baseAddress x \<noteq> a" if "h j = Some x" "operator_bool x" for j x
  proof -
    from o1 [OF that] have "baseAddress x \<in> fst ` set (live k)" by force
    with us show ?thesis unfolding usable_def by auto
  qed
  show ?thesis unfolding owned_iff
  proof (intro conjI allI impI ballI)
    fix j x assume "(h(i \<mapsto> \<lparr>baseAddress = a, size' = n\<rparr>)) j = Some x \<and> operator_bool x"
    then show "(baseAddress x, size' x) \<in> set (live (k\<lparr>live := (a, n) # live k\<rparr>))"
      using o1 by (cases "j = i") auto
  next
    fix j j' x x'
    assume as: "j \<noteq> j' \<and> (h(i \<mapsto> \<lparr>baseAddress = a, size' = n\<rparr>)) j = Some x \<and>
         (h(i \<mapsto> \<lparr>baseAddress = a, size' = n\<rparr>)) j' = Some x' \<and>
         operator_bool x \<and> operator_bool x'"
    show "baseAddress x \<noteq> baseAddress x'"
    proof (cases "j = i")
      case True
      with as have "baseAddress x = a" "h j' = Some x'" "operator_bool x'" by auto
      with fresh show ?thesis by metis
    next
      case False
      note ji = this
      show ?thesis
      proof (cases "j' = i")
        case True
        with as ji have "baseAddress x' = a" "h j = Some x" "operator_bool x" by auto
        with fresh show ?thesis by metis
      next
        case False
        with as ji have "j \<noteq> j'" "h j = Some x" "h j' = Some x'" "operator_bool x" "operator_bool x'" by auto
        then show ?thesis by (rule o2)
      qed
    qed
  next
    fix r assume "r \<in> set (stray (k\<lparr>live := (a, n) # live k\<rparr>))"
    then show "fst r = MAP_FAILED" using o3 by simp
  qed
qed

lemma owned_swap:
  assumes ow: "owned \<lparr>objs = h, kern = k\<rparr>"
    and hi: "h i = Some t" and hj: "h j = Some s" and ij: "j \<noteq> i"
  shows "owned \<lparr>objs = h(j \<mapsto> t, i \<mapsto> s), kern = k\<rparr>"
proof -
  define p where "p l = (if l = i then j else if l = j then i else l)" for l
  have look: "(h(j \<mapsto> t, i \<mapsto> s)) l = h (p l)" for l
    using hi hj ij by (simp add: p_def)
  have inj: "p l \<noteq> p l'" if "l \<noteq> l'" for l l'
    using that ij by (auto simp: p_def)
  from ow show ?thesis
    unfolding owned_iff look by (meson inj)
qed

lemma step_owned:
  assumes ow: "owned w" and st: "step cfg x w = Inr w'"
  shows "owned w'"
proof -
  obtain h k where w: "w = \<lparr>objs = h, kern = k\<rparr>" by (cases w) auto
  note ow' = ow [unfolded w]
  show ?thesis
  proof (cases x)
    case (New_default i)
    with st w ow' owned_put_invalid [OF ow', of Mapping_default i] show ?thesis
      by (auto simp: Mapping_default_def operator_bool_def split: option.splits)
  next
    case (New_at i base sz orc)
    show ?thesis
    proof (cases "h i")
      case (Some m) with st w ow New_at show ?thesis by auto
    next
      case None
      with st w New_at obtain b m' k' where
        tm: "try_map cfg orc base \<lparr>baseAddress = MAP_FAILED, size' = sz\<rparr> k = Inr (b, m', k')"
        and w': "w' = \<lparr>objs = h(i \<mapsto> m'), kern = k'\<rparr>"
        by (auto simp: Mapping_at_def split: sum.splits)
      show ?thesis
      proof (cases b)
        case True
        with try_map_True [of cfg orc base "\<lparr>baseAddress = MAP_FAILED, size' = sz\<rparr>" k m' k'] tm obtain a where
          "usable k a" "m' = \<lparr>baseAddress = a, size' = sz\<rparr>" "k' = k\<lparr>live := (a, sz) # live k\<rparr>"
          by auto
        with owned_acquire [OF ow', of i a sz] None w' show ?thesis by simp
      next
        case False
        with try_map_False [of cfg orc base "\<lparr>baseAddress = MAP_FAILED, size' = sz\<rparr>" k m' k'] tm
        have "m' = \<lparr>baseAddress = MAP_FAILED, size' = sz\<rparr>" "k' = k" by auto
        with owned_put_invalid [OF ow', of m' i] w' show ?thesis by (simp add: operator_bool_def)
      qed
    qed
  next
    case (New_moved i j)
    show ?thesis
    proof (cases "h i = None \<and> (\<exists>s. h j = Some s)")
      case False
      with st w ow New_moved show ?thesis by (auto split: option.splits)
    next
      case True
      then obtain s where hi: "h i = None" and hj: "h j = Some s" by auto
      then have ij: "i \<noteq> j" by auto
      from st w New_moved hi hj
      have w': "w' = \<lparr>objs = h(i \<mapsto> \<lparr>baseAddress = baseAddress s, size' = size' s\<rparr>,
                          j \<mapsto> s\<lparr>baseAddress := MAP_FAILED, size' := 0\<rparr>), kern = k\<rparr>"
        by (auto simp: move_ctor_def)
      from ow' have o1: "\<And>j x. h j = Some x \<Longrightarrow> operator_bool x \<Longrightarrow> (baseAddress x, size' x) \<in> set (live k)"
        and o2: "\<And>j j' x x'. j \<noteq> j' \<Longrightarrow> h j = Some x \<Longrightarrow> h j' = Some x' \<Longrightarrow> operator_bool x \<Longrightarrow>
                operator_bool x' \<Longrightarrow> baseAddress x \<noteq> baseAddress x'"
        and o3: "\<And>r. r \<in> set (stray k) \<Longrightarrow> fst r = MAP_FAILED"
        unfolding owned_iff by blast+
      show ?thesis unfolding w' owned_iff
      proof (intro conjI allI impI ballI)
        fix l x
        assume "(h(i \<mapsto> \<lparr>baseAddress = baseAddress s, size' = size' s\<rparr>,
                   j \<mapsto> s\<lparr>baseAddress := MAP_FAILED, size' := 0\<rparr>)) l = Some x \<and> operator_bool x"
        then show "(baseAddress x, size' x) \<in> set (live k)"
          using o1 [OF hj] o1 ij by (auto simp: operator_bool_def split: if_splits)
      next
        fix l l' x x'
        assume as: "l \<noteq> l' \<and>
          (h(i \<mapsto> \<lparr>baseAddress = baseAddress s, size' = size' s\<rparr>,
             j \<mapsto> s\<lparr>baseAddress := MAP_FAILED, size' := 0\<rparr>)) l = Some x \<and>
          (h(i \<mapsto> \<lparr>baseAddress = baseAddress s, size' = size' s\<rparr>,
             j \<mapsto> s\<lparr>baseAddress := MAP_FAILED, size' := 0\<rparr>)) l' = Some x' \<and>
          operator_bool x \<and> operator_bool x'"
        then have lj: "l \<noteq> j" "l' \<noteq> j" by (auto simp: operator_bool_def split: if_splits)
        show "baseAddress x \<noteq> baseAddress x'"
        proof (cases "l = i")
          case True
          with as lj ij have "baseAddress x = baseAddress s" "operator_bool s" "h l' = Some x'" "l' \<noteq> j" "operator_bool x'"
            by (auto simp: operator_bool_def split: if_splits)
          with o2 [of j l' s x'] hj show ?thesis by auto
        next
          case False
          note li = this
          show ?thesis
          proof (cases "l' = i")
            case True
            with as lj ij li have "baseAddress x' = baseAddress s" "operator_bool s" "h l = Some x" "l \<noteq> j" "operator_bool x"
              by (auto simp: operator_bool_def split: if_splits)
            with o2 [of l j x s] hj show ?thesis by auto
          next
            case False
            with as lj li have "l \<noteq> l'" "h l = Some x" "h l' = Some x'" "operator_bool x" "operator_bool x'"
              by auto
            then show ?thesis by (rule o2)
          qed
        qed
      next
        fix r assume "r \<in> set (stray k)" then show "fst r = MAP_FAILED" by (rule o3)
      qed
    qed
  next
    case (Assign_moved i j)
    show ?thesis
    proof (cases "h i = None \<or> h j = None \<or> j = i")
      case True
      from move_assign_same [OF True] st w ow Assign_moved show ?thesis by auto
    next
      case False
      then obtain t s where hi: "h i = Some t" and hj: "h j = Some s" and ji: "j \<noteq> i" by auto
      from move_assign_swap [OF hi hj ji] st w Assign_moved
      have "w' = \<lparr>objs = h(j \<mapsto> t, i \<mapsto> s), kern = k\<rparr>" by auto
      with owned_swap [OF ow' hi hj ji] show ?thesis by simp
    qed
  next
    case (Clear i orc)
    show ?thesis
    proof (cases "h i")
      case None with st w ow Clear show ?thesis by auto
    next
      case (Some m)
      with st w Clear obtain m' k' where
        cl: "clear cfg orc m k = Inr (m', k')" and w': "w' = \<lparr>objs = h(i \<mapsto> m'), kern = k'\<rparr>"
        by (auto split: sum.splits)
      from clear_Inr [OF cl] show ?thesis
      proof (elim disjE conjE exE)
        assume "m' = m" "k' = k"
        with w' Some have "w' = \<lparr>objs = h, kern = k\<rparr>" by (simp add: map_upd_triv)
        with ow' show ?thesis by simp
      next
        fix rc k1
        assume um: "os_munmap k (baseAddress m) (size' m) = (rc, k1)"
          and "m' = m\<lparr>baseAddress := MAP_FAILED\<rparr>" "k' = k1"
        with owned_release(1) [OF ow' Some um] w' show ?thesis by simp
      next
        fix rc k1 a
        assume um: "os_munmap k (baseAddress m) (size' m) = (rc, k1)"
          and us: "usable k1 a" and m': "m' = m\<lparr>baseAddress := a\<rparr>"
          and k': "k' = k1\<lparr>live := (a, size' m) # live k1\<rparr>"
        have "owned \<lparr>objs = (h(i \<mapsto> m\<lparr>baseAddress := MAP_FAILED\<rparr>))(i \<mapsto> \<lparr>baseAddress = a, size' = size' m\<rparr>),
                     kern = k1\<lparr>live := (a, size' m) # live k1\<rparr>\<rparr>"
          by (rule owned_acquire [OF owned_release(1) [OF ow' Some um] _ us])
             (simp add: operator_bool_def)
        with w' m' k' show ?thesis by (simp add: Mapping_upd_base)
      qed
    qed
  next
    case (Delete i)
    show ?thesis
    proof (cases "h i")
      case None with st w ow Delete show ?thesis by auto
    next
      case (Some m)
      show ?thesis
      proof (cases "operator_bool m")
        case False
        with st w Delete Some have "w' = \<lparr>objs = h(i := None), kern = k\<rparr>"
          by (auto simp: dtor_def)
        with owned_drop [OF ow', of i] show ?thesis by simp
      next
        case True
        obtain rc k1 where um: "os_munmap k (baseAddress m) (size' m) = (rc, k1)"
          by (cases "os_munmap k (baseAddress m) (size' m)")
        with st w Delete Some True have w': "w' = \<lparr>objs = h(i := None), kern = k1\<rparr>"
          by (auto simp: dtor_def split: if_splits)
        from owned_drop [OF owned_release(1) [OF ow' Some um], of i] w' show ?thesis by simp
      qed
    qed
  qed
qed

lemma step_no_munmap_failure:
  assumes ow: "owned w"
  shows "step cfg x w \<noteq> Inl Munmap_failed"
proof
  assume st: "step cfg x w = Inl Munmap_failed"
  obtain h k where w: "w = \<lparr>objs = h, kern = k\<rparr>" by (cases w) auto
  note ow' = ow [unfolded w]
  show False
  proof (cases x)
    case (New_default i) with st show ?thesis by (auto split: option.splits)
  next
    case (New_at i base sz orc)
    with st try_map_no_munmap_failure [of cfg orc base "\<lparr>baseAddress = MAP_FAILED, size' = sz\<rparr>" "kern w"]
    show ?thesis by (auto simp: Mapping_at_def split: option.splits sum.splits)
  next
    case (New_moved i j) with st show ?thesis by (auto split: option.splits)
  next
    case (Assign_moved i j) with st show ?thesis by auto
  next
    case (Clear i orc)
    with st w obtain m where hi: "h i = Some m" and cl: "clear cfg orc m k = Inl Munmap_failed"
      by (auto split: option.splits sum.splits)
    from clear_Munmap_failed [OF cl] owned_release(2) [OF ow' hi, of "fst (os_munmap k (baseAddress m) (size' m))" "snd (os_munmap k (baseAddress m) (size' m))"]
    show ?thesis by simp
  next
    case (Delete i)
    with st w obtain m where hi: "h i = Some m" and dt: "dtor cfg m k = Inl Munmap_failed"
      by (auto split: option.splits sum.splits)
    then have "operator_bool m \<and> fst (os_munmap k (baseAddress m) (size' m)) \<noteq> 0"
      by (auto simp: dtor_def split: if_splits prod.splits)
    with owned_release(2) [OF ow' hi, of "fst (os_munmap k (baseAddress m) (size' m))" "snd (os_munmap k (baseAddress m) (size' m))"]
    show ?thesis by simp
  qed
qed

lemma run_owned:
  "owned w \<Longrightarrow> run cfg xs w = Inr w' \<Longrightarrow> owned w'"
proof (induction xs arbitrary: w)
  case Nil then show ?case by simp
next
  case (Cons x xs)
  show ?case
  proof (cases "step cfg x w")
    case (Inl a)
    with Cons.prems show ?thesis by simp
  next
    case (Inr w1)
    from step_owned [OF Cons.prems(1) Inr] have "owned w1" .
    from Cons.IH [OF this] Cons.prems(2) Inr show ?thesis by simp
  qed
qed

lemma run_no_munmap_failure:
  "owned w \<Longrightarrow> run cfg xs w \<noteq> Inl Munmap_failed"
proof (induction xs arbitrary: w)
  case Nil then show ?case by simp
next
  case (Cons x xs)
  show ?case
  proof (cases "step cfg x w")
    case (Inl a)
    with step_no_munmap_failure [OF Cons.prems, of cfg x] show ?thesis by simp
  next
    case (Inr w1)
    from step_owned [OF Cons.prems Inr] have "owned w1" .
    from Cons.IH [OF this] Inr show ?thesis by simp
  qed
qed

lemma owned_start: "owned (start ms)"
  by (simp add: owned_def start_def)

subsection \<open>Stray calls, advice and remapping\<close>

lemma Mapping_upd_same: "(m::Mapping)\<lparr>baseAddress := baseAddress m\<rparr> = m"
  by (cases m) simp

lemma try_map_stray:
  assumes "try_map cfg orc base m k = Inr (b, m', k')"
  shows "stray k' = stray k"
proof (cases b)
  case True
  with try_map_True [of cfg orc base m k m' k'] assms show ?thesis by auto
next
  case False
  with try_map_False [of cfg orc base m k m' k'] assms show ?thesis by auto
qed

lemma os_munmap_stray:
  assumes "os_munmap k a n = (0, k1)"
  shows "stray k1 = stray k"
  using os_munmap_cases [OF assms] by auto

lemma clear_fallback_Inr:
  assumes nl: "\<not> is_linux (plat cfg)"
    and um: "os_munmap k (baseAddress m) (size' m) = (rc, k1)"
    and cl: "clear cfg orc m k = Inr (m', k')"
  shows "(asserts cfg \<longrightarrow> rc = 0 \<and> operator_bool m) \<and>
         (\<exists>b. try_map cfg orc (baseAddress m) (m\<lparr>baseAddress := MAP_FAILED\<rparr>) k1 = Inr (b, m', k') \<and>
              (asserts cfg \<longrightarrow> b))"
proof -
  note eq = clear_fallback [OF nl um, of orc]
  from eq cl have a: "asserts cfg \<longrightarrow> rc = 0 \<and> operator_bool m" by (simp split: if_splits)
  show ?thesis
  proof (cases "try_map cfg orc (baseAddress m) (m\<lparr>baseAddress := MAP_FAILED\<rparr>) k1")
    case (Inl x)
    with eq cl show ?thesis by (simp split: if_splits)
  next
    case (Inr r)
    obtain b m2 k2 where r: "r = (b, m2, k2)" by (cases r)
    from eq cl Inr r have "m2 = m'" "k2 = k'" "asserts cfg \<longrightarrow> b"
      by (simp_all split: if_splits)
    with Inr r a show ?thesis by simp
  qed
qed

lemma step_stray:
  assumes as: "asserts cfg" and st: "step cfg x w = Inr w'"
  shows "stray (kern w') = stray (kern w)"
proof (cases x)
  case (New_default i) with st show ?thesis by (auto split: option.splits)
next
  case (New_at i base sz orc)
  show ?thesis
  proof (cases "objs w i")
    case (Some m) with st New_at show ?thesis by simp
  next
    case None
    with st New_at obtain b m' k' where
      tm: "try_map cfg orc base \<lparr>baseAddress = MAP_FAILED, size' = sz\<rparr> (kern w) = Inr (b, m', k')"
      and w': "kern w' = k'"
      by (auto simp: Mapping_at_def split: sum.splits)
    from try_map_stray [OF tm] w' show ?thesis by simp
  qed
next
  case (New_moved i j) with st show ?thesis by (auto split: option.splits)
next
  case (Assign_moved i j) with st show ?thesis by auto
next
  case (Clear i orc)
  show ?thesis
  proof (cases "objs w i")
    case None with st Clear show ?thesis by simp
  next
    case (Some m)
    with st Clear obtain m' k' where
      cl: "clear cfg orc m (kern w) = Inr (m', k')" and w': "kern w' = k'"
      by (auto split: sum.splits)
    show ?thesis
    proof (cases "is_linux (plat cfg)")
      case True
      with cl w' show ?thesis by (simp add: clear_linux split: if_splits)
    next
      case False
      obtain rc k1 where um: "os_munmap (kern w) (baseAddress m) (size' m) = (rc, k1)"
        by (cases "os_munmap (kern w) (baseAddress m) (size' m)")
      from clear_fallback_Inr [OF False um cl] as obtain b where rc: "rc = 0"
        and tm: "try_map cfg orc (baseAddress m) (m\<lparr>baseAddress := MAP_FAILED\<rparr>) k1 = Inr (b, m', k')"
        by blast
      from try_map_stray [OF tm] os_munmap_stray [OF um [unfolded rc]] w' show ?thesis by simp
    qed
  qed
next
  case (Delete i)
  show ?thesis
  proof (cases "objs w i")
    case None with st Delete show ?thesis by simp
  next
    case (Some m)
    show ?thesis
    proof (cases "operator_bool m")
      case False
      with st Delete Some show ?thesis by (auto simp: dtor_def)
    next
      case True
      obtain rc k1 where um: "os_munmap (kern w) (baseAddress m) (size' m) = (rc, k1)"
        by (cases "os_munmap (kern w) (baseAddress m) (size' m)")
      with st Delete Some True as have "rc = 0" "kern w' = k1"
        by (auto simp: dtor_def split: if_splits)
      with os_munmap_stray [of "kern w" "baseAddress m" "size' m" k1] um show ?thesis by simp
    qed
  qed
qed

lemma run_stray:
  "asserts cfg \<Longrightarrow> run cfg xs w = Inr w' \<Longrightarrow> stray (kern w') = stray (kern w)"
proof (induction xs arbitrary: w)
  case Nil then show ?case by simp
next
  case (Cons x xs)
  show ?case
  proof (cases "step cfg x w")
    case (Inl a)
    with Cons.prems show ?thesis by simp
  next
    case (Inr w1)
    from step_stray [OF Cons.prems(1) Inr] Cons.IH [OF Cons.prems(1), of w1] Cons.prems(2) Inr
    show ?thesis by simp
  qed
qed

lemma owned_Delete:
  assumes ow: "owned w" and hi: "objs w i = Some m"
  shows "step cfg (Delete i) w =
           Inr \<lparr>objs = (objs w)(i := None),
                kern = (if operator_bool m
                        then (kern w)\<lparr>live := remove1 (baseAddress m, size' m) (live (kern w))\<rparr>
                        else kern w)\<rparr>"
proof (cases "operator_bool m")
  case False
  with hi show ?thesis by (simp add: dtor_def)
next
  case True
  with ow hi have "(baseAddress m, size' m) \<in> set (live (kern w))"
    unfolding owned_def by blast
  with hi True show ?thesis by (simp add: dtor_def os_munmap_def)
qed

lemma created_base_not_null:
  assumes "Mapping_at cfg orc base sz k = Inr (m', k')" and "operator_bool m'"
  shows "baseAddress m' \<noteq> 0 \<and> (baseAddress m', size' m') \<in> set (live k')"
proof -
  from assms(1) obtain b where
    tm: "try_map cfg orc base \<lparr>baseAddress = MAP_FAILED, size' = sz\<rparr> k = Inr (b, m', k')"
    by (auto simp: Mapping_at_def split: sum.splits)
  show ?thesis
  proof (cases b)
    case True
    with try_map_True [of cfg orc base "\<lparr>baseAddress = MAP_FAILED, size' = sz\<rparr>" k m' k'] tm
    show ?thesis by (auto simp: usable_def)
  next
    case False
    with try_map_False [of cfg orc base "\<lparr>baseAddress = MAP_FAILED, size' = sz\<rparr>" k m' k'] tm assms(2)
    show ?thesis by (simp add: operator_bool_def)
  qed
qed

lemma try_map_success_advice:
  assumes "try_map cfg orc base m k = Inr (True, m', k')" and "asserts cfg"
    and "post_map_advice (plat cfg) = Some x"
  shows "advise_rc orc = 0"
proof -
  obtain a k1 where om: "os_mmap k (mmap_reply orc) base (size' m) (map_flags (plat cfg) base) = (a, k1)"
    by (cases "os_mmap k (mmap_reply orc) base (size' m) (map_flags (plat cfg) base)")
  from os_mmap_cases [OF om] assms om show ?thesis
    by (auto simp: try_map_def os_munmap_just_mapped split: if_splits)
qed

lemma try_map_advice_fails:
  assumes "asserts cfg" and "baseAddress m = MAP_FAILED"
    and "os_mmap k (mmap_reply orc) base (size' m) (map_flags (plat cfg) base) = (a, k1)"
    and "a \<noteq> MAP_FAILED" and "base = 0 \<or> base = a"
    and "post_map_advice (plat cfg) = Some x" and "advise_rc orc \<noteq> 0"
  shows "try_map cfg orc base m k = Inl x"
  using assms by (auto simp: try_map_def)

lemma clear_remap_fails:
  assumes as: "asserts cfg" and v: "operator_bool m" and nz: "baseAddress m \<noteq> 0"
    and nl: "\<not> is_linux (plat cfg)" and lv: "(baseAddress m, size' m) \<in> set (live k)"
    and rf: "fst (os_mmap (k\<lparr>live := remove1 (baseAddress m, size' m) (live k)\<rparr>) (mmap_reply orc)
                (baseAddress m) (size' m) (map_flags (plat cfg) (baseAddress m))) \<noteq> baseAddress m"
  shows "clear cfg orc m k = Inl Could_not_recreate"
proof -
  let ?k1 = "k\<lparr>live := remove1 (baseAddress m, size' m) (live k)\<rparr>"
  let ?m0 = "m\<lparr>baseAddress := MAP_FAILED\<rparr>"
  from lv have um: "os_munmap k (baseAddress m) (size' m) = (0, ?k1)"
    by (simp add: os_munmap_def)
  note eq = clear_fallback [OF nl um, of orc]
  obtain a k2 where om: "os_mmap ?k1 (mmap_reply orc) (baseAddress m) (size' ?m0)
        (map_flags (plat cfg) (baseAddress m)) = (a, k2)"
    by (cases "os_mmap ?k1 (mmap_reply orc) (baseAddress m) (size' ?m0) (map_flags (plat cfg) (baseAddress m))")
  with rf have ne: "baseAddress m \<noteq> a" by auto
  have "try_map cfg orc (baseAddress m) ?m0 ?k1 = Inr (False, ?m0, ?k1)"
  proof (cases "a = MAP_FAILED")
    case True
    with om show ?thesis by (intro try_map_refused) simp_all
  next
    case False
    with om nz ne show ?thesis by (intro try_map_misplaced [where a = a and ?k1.0 = k2]) simp_all
  qed
  with eq as v show ?thesis by simp
qed

lemma clear_returns_valid:
  assumes as: "asserts cfg" and cl: "clear cfg orc m k = Inr (m', k')"
  shows "operator_bool m'"
proof (cases "is_linux (plat cfg)")
  case True
  with cl as show ?thesis by (simp add: clear_linux split: if_splits)
next
  case False
  obtain rc k1 where um: "os_munmap k (baseAddress m) (size' m) = (rc, k1)"
    by (cases "os_munmap k (baseAddress m) (size' m)")
  from clear_fallback_Inr [OF False um cl] as
  have "try_map cfg orc (baseAddress m) (m\<lparr>baseAddress := MAP_FAILED\<rparr>) k1 = Inr (True, m', k')"
    by auto
  from try_map_True [OF this] show ?thesis by (auto simp: usable_def operator_bool_def)
qed

section \<open>The claims\<close>

subsection \<open>C1: what \<^verbatim>\<open>clear\<close> preserves\<close>

text \<open>
  Claim C1 says that \<^verbatim>\<open>clear()\<close> on a valid object leaves it valid with the same base
  and size. On a platform other than Linux, in a build with \<^verbatim>\<open>NDEBUG\<close>, this fails:
  \<^verbatim>\<open>clear\<close> unmaps, \<^verbatim>\<open>try_map\<close> does not get the old address back, the assertion on
  \<^verbatim>\<open>success\<close> checks nothing, and \<^verbatim>\<open>clear\<close> returns with the object unmapped.
\<close>

theorem clear_remap_elsewhere_counterexample:
  "operator_bool \<lparr>baseAddress = 0x10000, size' = 4096\<rparr> \<and>
   clear \<lparr>plat = Apple, asserts = False\<rparr> \<lparr>mmap_reply = Some 0x20000, advise_rc = 0\<rparr>
      \<lparr>baseAddress = 0x10000, size' = 4096\<rparr> \<lparr>live = [(0x10000, 4096)], stray = []\<rparr>
     = Inr (\<lparr>baseAddress = MAP_FAILED, size' = 4096\<rparr>, \<lparr>live = [], stray = []\<rparr>) \<and>
   \<not> operator_bool \<lparr>baseAddress = MAP_FAILED, size' = 4096\<rparr>"
  by (simp add: clear_def try_map_def os_mmap_def os_munmap_def usable_def
      map_flags_def is_linux_def post_map_advice_def MAP_FAILED_def operator_bool_def)

text \<open>
  Claim C1, as the code has it. Let \<^verbatim>\<open>clear()\<close> be called on a valid object whose base is
  not the null address (\<open>created_base_not_null\<close>: no created object has it) and
  return. Then the size is unchanged, and the base is unchanged or \<^verbatim>\<open>MAP_FAILED\<close>.
  When assertions are enabled, or the platform is Linux, or the object is still valid,
  the object is unchanged: valid, same base, same size, and \<^verbatim>\<open>getBaseAddress\<close> returns
  the old base. Off Linux a still valid object's range is a live mapping again.
\<close>

theorem clear_keeps_address_and_size:
  assumes "operator_bool m" and "baseAddress m \<noteq> 0" and "clear cfg orc m k = Inr (m', k')"
  shows "getSize m' = getSize m \<and>
         (baseAddress m' = baseAddress m \<or> baseAddress m' = MAP_FAILED) \<and>
         (asserts cfg \<or> is_linux (plat cfg) \<or> operator_bool m' \<longrightarrow>
            m' = m \<and> operator_bool m' \<and> getBaseAddress cfg m' = Inr (baseAddress m)) \<and>
         (\<not> is_linux (plat cfg) \<and> operator_bool m' \<longrightarrow>
            (baseAddress m, size' m) \<in> set (live k'))"
proof -
  have gb: "getBaseAddress cfg m = Inr (baseAddress m)"
    using assms(1) by (simp add: getBaseAddress_def)
  from clear_Inr [OF assms(3)] show ?thesis
  proof (elim disjE conjE exE)
    assume "is_linux (plat cfg)" "m' = m" "k' = k"
    with assms(1) gb show ?thesis by simp
  next
    fix rc k1
    assume "\<not> is_linux (plat cfg)" "\<not> asserts cfg" "m' = m\<lparr>baseAddress := MAP_FAILED\<rparr>"
    then show ?thesis by (simp add: getSize_def operator_bool_def)
  next
    fix rc k1 a
    assume nl: "\<not> is_linux (plat cfg)" and a: "baseAddress m \<noteq> 0 \<longrightarrow> a = baseAddress m"
      and m': "m' = m\<lparr>baseAddress := a\<rparr>" and k': "k' = k1\<lparr>live := (a, size' m) # live k1\<rparr>"
    from a assms(2) have "a = baseAddress m" by simp
    with m' have "m' = m" by (simp add: Mapping_upd_same)
    with assms(1) gb k' \<open>a = baseAddress m\<close> show ?thesis by simp
  qed
qed

text \<open>With assertions enabled on macOS, the system giving the address back.\<close>

theorem clear_keeps_address_and_size_witness:
  "operator_bool \<lparr>baseAddress = 0x10000, size' = 4096\<rparr> \<and>
   baseAddress \<lparr>baseAddress = 0x10000, size' = 4096\<rparr> \<noteq> 0 \<and>
   clear \<lparr>plat = Apple, asserts = True\<rparr> \<lparr>mmap_reply = Some 0x10000, advise_rc = 0\<rparr>
      \<lparr>baseAddress = 0x10000, size' = 4096\<rparr> \<lparr>live = [(0x10000, 4096)], stray = []\<rparr>
     = Inr (\<lparr>baseAddress = 0x10000, size' = 4096\<rparr>, \<lparr>live = [(0x10000, 4096)], stray = []\<rparr>) \<and>
   getSize \<lparr>baseAddress = 0x10000, size' = 4096\<rparr> = 4096 \<and>
   getBaseAddress \<lparr>plat = Apple, asserts = True\<rparr> \<lparr>baseAddress = 0x10000, size' = 4096\<rparr>
     = Inr 0x10000"
proof -
  have v: "operator_bool \<lparr>baseAddress = 0x10000, size' = 4096\<rparr>"
    by (simp add: operator_bool_def MAP_FAILED_def)
  have n: "baseAddress \<lparr>baseAddress = 0x10000, size' = 4096\<rparr> \<noteq> 0" by simp
  have c: "clear \<lparr>plat = Apple, asserts = True\<rparr> \<lparr>mmap_reply = Some 0x10000, advise_rc = 0\<rparr>
      \<lparr>baseAddress = 0x10000, size' = 4096\<rparr> \<lparr>live = [(0x10000, 4096)], stray = []\<rparr>
     = Inr (\<lparr>baseAddress = 0x10000, size' = 4096\<rparr>, \<lparr>live = [(0x10000, 4096)], stray = []\<rparr>)"
    by (simp add: clear_def try_map_def os_mmap_def os_munmap_def usable_def
      map_flags_def is_linux_def post_map_advice_def MAP_FAILED_def operator_bool_def)
  from clear_keeps_address_and_size [OF v n c] v c show ?thesis
    by (simp add: getSize_def)
qed

subsection \<open>C2: moves\<close>

text \<open>
  Claim C2 says that after any move the source is invalid and destroying it is a
  no-op. Move assignment swaps, so when the destination was valid the source is valid
  afterwards, holding the destination's former mapping, and its destructor releases
  that mapping.
\<close>

theorem move_assign_onto_valid_counterexample:
  "move_assign 0 1 [0 \<mapsto> \<lparr>baseAddress = 0x10000, size' = 4096\<rparr>,
                    1 \<mapsto> \<lparr>baseAddress = 0x20000, size' = 8192\<rparr>] 1
     = Some \<lparr>baseAddress = 0x10000, size' = 4096\<rparr> \<and>
   operator_bool \<lparr>baseAddress = 0x10000, size' = 4096\<rparr> \<and>
   dtor \<lparr>plat = Linux_noreplace, asserts = True\<rparr> \<lparr>baseAddress = 0x10000, size' = 4096\<rparr>
       \<lparr>live = [(0x20000, 8192), (0x10000, 4096)], stray = []\<rparr>
     = Inr \<lparr>live = [(0x20000, 8192)], stray = []\<rparr>"
  by (simp add: move_assign_def swap_size_def swap_baseAddress_def dtor_def os_munmap_def
      operator_bool_def MAP_FAILED_def)

text \<open>
  Claim C2, as the code has it. Move construction gives the new object the source's
  base and size and leaves the source as a default-constructed object: invalid, size 0,
  and its destructor leaves the kernel as it is. Move assignment between two different
  objects exchanges them: the destination gets the source's former base and size, the
  source gets the destination's, and no other object changes; when the destination was
  invalid before, the source is invalid afterwards and destroying it leaves the kernel
  as it is. In every case a destructor of the source that returns leaves the mapping
  now held by the destination live, the two bases being different.
\<close>

theorem move_transfers_mapping:
  "getSize (fst (move_ctor other)) = getSize other \<and>
   getBaseAddress cfg (fst (move_ctor other)) = getBaseAddress cfg other \<and>
   fst (move_ctor other) = other \<and>
   snd (move_ctor other) = Mapping_default \<and>
   \<not> operator_bool (snd (move_ctor other)) \<and>
   dtor cfg (snd (move_ctor other)) k = Inr k \<and>
   (h this = Some t \<and> h src = Some s \<and> src \<noteq> this \<longrightarrow>
      move_assign this src h this = Some s \<and>
      move_assign this src h src = Some t \<and>
      (\<forall>l. l \<noteq> this \<and> l \<noteq> src \<longrightarrow> move_assign this src h l = h l) \<and>
      (\<not> operator_bool t \<longrightarrow> dtor cfg t k = Inr k) \<and>
      (\<forall>k'. (baseAddress s, size' s) \<in> set (live k) \<and> baseAddress s \<noteq> baseAddress t \<and>
            dtor cfg t k = Inr k' \<longrightarrow> (baseAddress s, size' s) \<in> set (live k')))"
proof -
  have a: "fst (move_ctor other) = other" by (cases other) (simp add: move_ctor_def)
  have b: "snd (move_ctor other) = Mapping_default"
    by (cases other) (simp add: move_ctor_def Mapping_default_def)
  have c: "\<not> operator_bool Mapping_default" by (simp add: operator_bool_def Mapping_default_def)
  have d: "dtor cfg x k = Inr k" if "\<not> operator_bool x" for x using that by (simp add: dtor_def)
  have e: "move_assign this src h = h(src \<mapsto> t, this \<mapsto> s)"
    if "h this = Some t" "h src = Some s" "src \<noteq> this"
    using that by (rule move_assign_swap)
  have f: "(baseAddress s, size' s) \<in> set (live k')"
    if "(baseAddress s, size' s) \<in> set (live k)" "baseAddress s \<noteq> baseAddress t"
      "dtor cfg t k = Inr k'" for k'
  proof (cases "operator_bool t")
    case False
    with that show ?thesis by (simp add: dtor_def)
  next
    case True
    obtain rc k1 where um: "os_munmap k (baseAddress t) (size' t) = (rc, k1)"
      by (cases "os_munmap k (baseAddress t) (size' t)")
    with that(3) True have "k' = k1" by (simp add: dtor_def split: if_splits)
    with os_munmap_cases [OF um] that(1,2) show ?thesis by auto
  qed
  have g: "move_assign this src h this = Some s \<and> move_assign this src h src = Some t \<and>
           (\<forall>l. l \<noteq> this \<and> l \<noteq> src \<longrightarrow> move_assign this src h l = h l)"
    if "h this = Some t" "h src = Some s" "src \<noteq> this"
    unfolding e [OF that] using that(3) by simp
  show ?thesis
    unfolding a b using c d f g by blast
qed

text \<open>Assigning a mapped object to a default-constructed one.\<close>

theorem move_transfers_mapping_witness:
  "[0 \<mapsto> Mapping_default, 1 \<mapsto> \<lparr>baseAddress = 0x20000, size' = 8192\<rparr>] (0::nat)
     = Some Mapping_default \<and>
   [0 \<mapsto> Mapping_default, 1 \<mapsto> \<lparr>baseAddress = 0x20000, size' = 8192\<rparr>] (1::nat)
     = Some \<lparr>baseAddress = 0x20000, size' = 8192\<rparr> \<and>
   (1::nat) \<noteq> 0 \<and> \<not> operator_bool Mapping_default \<and>
   move_assign 0 1 [0 \<mapsto> Mapping_default, 1 \<mapsto> \<lparr>baseAddress = 0x20000, size' = 8192\<rparr>] 0
     = Some \<lparr>baseAddress = 0x20000, size' = 8192\<rparr> \<and>
   move_assign 0 1 [0 \<mapsto> Mapping_default, 1 \<mapsto> \<lparr>baseAddress = 0x20000, size' = 8192\<rparr>] 1
     = Some Mapping_default \<and>
   dtor \<lparr>plat = Linux_noreplace, asserts = True\<rparr> Mapping_default \<lparr>live = [(0x20000, 8192)], stray = []\<rparr>
     = Inr \<lparr>live = [(0x20000, 8192)], stray = []\<rparr>"
proof -
  have c: "\<not> operator_bool Mapping_default" by (simp add: operator_bool_def Mapping_default_def)
  from move_transfers_mapping
    [of Mapping_default "\<lparr>plat = Linux_noreplace, asserts = True\<rparr>"
        "\<lparr>live = [(0x20000, 8192)], stray = []\<rparr>"
        "[0 \<mapsto> Mapping_default, 1 \<mapsto> \<lparr>baseAddress = 0x20000, size' = 8192\<rparr>]"
        0 Mapping_default 1 "\<lparr>baseAddress = 0x20000, size' = 8192\<rparr>"] c
  show ?thesis by simp
qed

subsection \<open>C3: a failed creation leaves nothing behind\<close>

text \<open>
  Claim C3. Creation fails when \<^verbatim>\<open>mmap\<close> returns \<^verbatim>\<open>MAP_FAILED\<close>, or when an address
  was requested and \<^verbatim>\<open>mmap\<close> returned another one. In both cases the constructor
  returns, the object it leaves has \<open>baseAddress = MAP_FAILED\<close> and is invalid, and
  the kernel is the one the attempt started from: the mapping placed at the wrong
  address has been unmapped again.
\<close>

theorem create_failure_leaves_no_mapping:
  assumes "os_mmap k (mmap_reply orc) base sz (map_flags (plat cfg) base) = (a, k1)"
    and "a = MAP_FAILED \<or> (base \<noteq> 0 \<and> base \<noteq> a)"
  shows "Mapping_at cfg orc base sz k = Inr (\<lparr>baseAddress = MAP_FAILED, size' = sz\<rparr>, k) \<and>
         \<not> operator_bool \<lparr>baseAddress = MAP_FAILED, size' = sz\<rparr>"
proof (cases "a = MAP_FAILED")
  case True
  with assms(1) try_map_refused [of "\<lparr>baseAddress = MAP_FAILED, size' = sz\<rparr>" k orc base cfg]
  show ?thesis by (simp add: Mapping_at_def operator_bool_def)
next
  case False
  with assms try_map_misplaced [of "\<lparr>baseAddress = MAP_FAILED, size' = sz\<rparr>" k orc base cfg a k1]
  show ?thesis by (simp add: Mapping_at_def operator_bool_def)
qed

text \<open>
  The second cause at work: address \<open>0x10000\<close> is requested on macOS, the system
  maps at \<open>0x20000\<close>.
\<close>

theorem create_failure_leaves_no_mapping_witness:
  "os_mmap \<lparr>live = [], stray = []\<rparr> (Some 0x20000) 0x10000 4096 (map_flags Apple 0x10000)
     = (0x20000, \<lparr>live = [(0x20000, 4096)], stray = []\<rparr>) \<and>
   (0x10000 :: addr) \<noteq> 0 \<and> (0x10000 :: addr) \<noteq> 0x20000 \<and>
   Mapping_at \<lparr>plat = Apple, asserts = True\<rparr> \<lparr>mmap_reply = Some 0x20000, advise_rc = 0\<rparr>
      0x10000 4096 \<lparr>live = [], stray = []\<rparr>
     = Inr (\<lparr>baseAddress = MAP_FAILED, size' = 4096\<rparr>, \<lparr>live = [], stray = []\<rparr>)"
proof -
  have h1: "os_mmap \<lparr>live = [], stray = []\<rparr>
        (mmap_reply \<lparr>mmap_reply = Some 0x20000, advise_rc = 0\<rparr>) 0x10000 4096
        (map_flags (plat \<lparr>plat = Apple, asserts = True\<rparr>) 0x10000)
     = (0x20000, \<lparr>live = [(0x20000, 4096)], stray = []\<rparr>)"
    by (simp add: os_mmap_def usable_def map_flags_def is_linux_def MAP_FAILED_def)
  have h2: "(0x20000 :: addr) = MAP_FAILED \<or> ((0x10000 :: addr) \<noteq> 0 \<and> (0x10000 :: addr) \<noteq> 0x20000)"
    by simp
  from create_failure_leaves_no_mapping [OF h1 h2] h1 show ?thesis
    by simp
qed

subsection \<open>C4: what the caller learns from a failure\<close>

text \<open>
  Claim C4 says that creation returns a result that tells a refused mapping from a
  mapping at the wrong address. The constructor returns nothing, \<^verbatim>\<open>try_map\<close> is
  private and returns \<^verbatim>\<open>false\<close> for both, and the object is the same: here the same
  request is refused once and misplaced once, with equal results.
\<close>

theorem creation_failures_look_alike_counterexample:
  "fst (os_mmap \<lparr>live = [], stray = []\<rparr> None 0x10000 4096 (map_flags Apple 0x10000)) = MAP_FAILED \<and>
   fst (os_mmap \<lparr>live = [], stray = []\<rparr> (Some 0x20000) 0x10000 4096 (map_flags Apple 0x10000)) = 0x20000 \<and>
   Mapping_at \<lparr>plat = Apple, asserts = True\<rparr> \<lparr>mmap_reply = None, advise_rc = 0\<rparr>
      0x10000 4096 \<lparr>live = [], stray = []\<rparr>
     = Mapping_at \<lparr>plat = Apple, asserts = True\<rparr> \<lparr>mmap_reply = Some 0x20000, advise_rc = 0\<rparr>
      0x10000 4096 \<lparr>live = [], stray = []\<rparr>"
  by (simp add: Mapping_at_def try_map_def os_mmap_def os_munmap_def usable_def
      map_flags_def is_linux_def MAP_FAILED_def)

text \<open>
  Claim C4, as the code has it. Failure is reported only by the validity of the object.
  Whenever one attempt is refused by the system and another, for the same request in
  the same kernel, is placed at a wrong address, \<^verbatim>\<open>try_map\<close> and the constructor
  return the same value for both: the flag \<open>False\<close>, the object with
  \<open>baseAddress = MAP_FAILED\<close> and the requested size, and the unchanged kernel.
\<close>

theorem creation_failure_has_one_result:
  assumes "fst (os_mmap k (mmap_reply o1) base sz (map_flags (plat cfg) base)) = MAP_FAILED"
    and "base \<noteq> 0"
    and "fst (os_mmap k (mmap_reply o2) base sz (map_flags (plat cfg) base)) \<noteq> MAP_FAILED"
    and "fst (os_mmap k (mmap_reply o2) base sz (map_flags (plat cfg) base)) \<noteq> base"
  shows "Mapping_at cfg o1 base sz k = Mapping_at cfg o2 base sz k \<and>
         Mapping_at cfg o1 base sz k = Inr (\<lparr>baseAddress = MAP_FAILED, size' = sz\<rparr>, k) \<and>
         try_map cfg o1 base \<lparr>baseAddress = MAP_FAILED, size' = sz\<rparr> k
           = try_map cfg o2 base \<lparr>baseAddress = MAP_FAILED, size' = sz\<rparr> k"
proof -
  let ?m = "\<lparr>baseAddress = MAP_FAILED, size' = sz\<rparr>"
  have t1: "try_map cfg o1 base ?m k = Inr (False, ?m, k)"
    using try_map_refused [of ?m k o1 base cfg] assms(1) by simp
  obtain a k1 where om: "os_mmap k (mmap_reply o2) base sz (map_flags (plat cfg) base) = (a, k1)"
    by (cases "os_mmap k (mmap_reply o2) base sz (map_flags (plat cfg) base)")
  have t2: "try_map cfg o2 base ?m k = Inr (False, ?m, k)"
    using try_map_misplaced [of ?m k o2 base cfg a k1] om assms(2-4) by auto
  from t1 t2 show ?thesis by (simp add: Mapping_at_def)
qed

text \<open>The two causes on a platform without flags or advice, assertions disabled.\<close>

theorem creation_failure_has_one_result_witness:
  "fst (os_mmap \<lparr>live = [], stray = []\<rparr> None 0x10000 4096 (map_flags Generic 0x10000)) = MAP_FAILED \<and>
   (0x10000 :: addr) \<noteq> 0 \<and>
   fst (os_mmap \<lparr>live = [], stray = []\<rparr> (Some 0x20000) 0x10000 4096 (map_flags Generic 0x10000))
     \<noteq> MAP_FAILED \<and>
   fst (os_mmap \<lparr>live = [], stray = []\<rparr> (Some 0x20000) 0x10000 4096 (map_flags Generic 0x10000))
     \<noteq> 0x10000 \<and>
   Mapping_at \<lparr>plat = Generic, asserts = False\<rparr> \<lparr>mmap_reply = None, advise_rc = 0\<rparr>
      0x10000 4096 \<lparr>live = [], stray = []\<rparr>
     = Inr (\<lparr>baseAddress = MAP_FAILED, size' = 4096\<rparr>, \<lparr>live = [], stray = []\<rparr>) \<and>
   Mapping_at \<lparr>plat = Generic, asserts = False\<rparr> \<lparr>mmap_reply = Some 0x20000, advise_rc = 0\<rparr>
      0x10000 4096 \<lparr>live = [], stray = []\<rparr>
     = Inr (\<lparr>baseAddress = MAP_FAILED, size' = 4096\<rparr>, \<lparr>live = [], stray = []\<rparr>)"
proof -
  have h1: "fst (os_mmap \<lparr>live = [], stray = []\<rparr> (mmap_reply \<lparr>mmap_reply = None, advise_rc = 0\<rparr>)
      0x10000 4096 (map_flags (plat \<lparr>plat = Generic, asserts = False\<rparr>) 0x10000)) = MAP_FAILED"
    by (simp add: os_mmap_def)
  have h2: "(0x10000 :: addr) \<noteq> 0" by simp
  have h3: "fst (os_mmap \<lparr>live = [], stray = []\<rparr> (mmap_reply \<lparr>mmap_reply = Some 0x20000, advise_rc = 0\<rparr>)
      0x10000 4096 (map_flags (plat \<lparr>plat = Generic, asserts = False\<rparr>) 0x10000)) \<noteq> MAP_FAILED"
    by (simp add: os_mmap_def usable_def map_flags_def is_linux_def MAP_FAILED_def)
  have h4: "fst (os_mmap \<lparr>live = [], stray = []\<rparr> (mmap_reply \<lparr>mmap_reply = Some 0x20000, advise_rc = 0\<rparr>)
      0x10000 4096 (map_flags (plat \<lparr>plat = Generic, asserts = False\<rparr>) 0x10000)) \<noteq> 0x10000"
    by (simp add: os_mmap_def usable_def map_flags_def is_linux_def MAP_FAILED_def)
  note t = creation_failure_has_one_result [OF h1 h2 h3 h4]
  from t have a: "Mapping_at \<lparr>plat = Generic, asserts = False\<rparr> \<lparr>mmap_reply = None, advise_rc = 0\<rparr>
      0x10000 4096 \<lparr>live = [], stray = []\<rparr>
     = Inr (\<lparr>baseAddress = MAP_FAILED, size' = 4096\<rparr>, \<lparr>live = [], stray = []\<rparr>)"
    by (rule conjunct1 [OF conjunct2])
  from t have "Mapping_at \<lparr>plat = Generic, asserts = False\<rparr> \<lparr>mmap_reply = None, advise_rc = 0\<rparr>
      0x10000 4096 \<lparr>live = [], stray = []\<rparr>
     = Mapping_at \<lparr>plat = Generic, asserts = False\<rparr> \<lparr>mmap_reply = Some 0x20000, advise_rc = 0\<rparr>
      0x10000 4096 \<lparr>live = [], stray = []\<rparr>"
    by (rule conjunct1)
  with a have b: "Mapping_at \<lparr>plat = Generic, asserts = False\<rparr> \<lparr>mmap_reply = Some 0x20000, advise_rc = 0\<rparr>
      0x10000 4096 \<lparr>live = [], stray = []\<rparr>
     = Inr (\<lparr>baseAddress = MAP_FAILED, size' = 4096\<rparr>, \<lparr>live = [], stray = []\<rparr>)"
    by simp
  from a b h1 h3 h4 show ?thesis by simp
qed

subsection \<open>C5: accessors on an invalid object\<close>

text \<open>
  Claim C5 says that both accessors trap on an invalid object. \<^verbatim>\<open>getSize\<close> has no
  assertion: on a default-constructed object it returns 0, and on an object whose
  creation failed the size that was requested. With \<^verbatim>\<open>NDEBUG\<close>, \<^verbatim>\<open>getBaseAddress\<close>
  returns \<^verbatim>\<open>MAP_FAILED\<close>.
\<close>

theorem getSize_on_invalid_counterexample:
  "\<not> operator_bool Mapping_default \<and> getSize Mapping_default = 0 \<and>
   \<not> operator_bool \<lparr>baseAddress = MAP_FAILED, size' = 4096\<rparr> \<and>
   getSize \<lparr>baseAddress = MAP_FAILED, size' = 4096\<rparr> = 4096 \<and>
   getBaseAddress \<lparr>plat = Linux_noreplace, asserts = False\<rparr> Mapping_default = Inr MAP_FAILED"
  by (simp add: operator_bool_def Mapping_default_def getSize_def getBaseAddress_def)

text \<open>
  Claim C5, as the code has it. On an invalid object \<^verbatim>\<open>getBaseAddress\<close> fails its
  assertion when assertions are enabled, and returns \<^verbatim>\<open>MAP_FAILED\<close> when they are
  not; on a valid object it returns the base. \<^verbatim>\<open>getSize\<close> returns the field \<open>size\<close>
  of every object, valid or not.
\<close>

theorem accessors_on_invalid:
  "(\<not> operator_bool m \<and> asserts cfg \<longrightarrow> getBaseAddress cfg m = Inl Invalid_mapping) \<and>
   (\<not> operator_bool m \<and> \<not> asserts cfg \<longrightarrow> getBaseAddress cfg m = Inr MAP_FAILED) \<and>
   (operator_bool m \<longrightarrow> getBaseAddress cfg m = Inr (baseAddress m)) \<and>
   getSize m = size' m"
  by (simp add: getBaseAddress_def getSize_def operator_bool_def)

text \<open>A default-constructed object, assertions enabled.\<close>

theorem accessors_on_invalid_witness:
  "\<not> operator_bool Mapping_default \<and>
   asserts \<lparr>plat = Linux_noreplace, asserts = True\<rparr> \<and>
   getBaseAddress \<lparr>plat = Linux_noreplace, asserts = True\<rparr> Mapping_default = Inl Invalid_mapping \<and>
   getSize Mapping_default = 0"
proof -
  have c: "\<not> operator_bool Mapping_default" by (simp add: operator_bool_def Mapping_default_def)
  from accessors_on_invalid [of Mapping_default "\<lparr>plat = Linux_noreplace, asserts = True\<rparr>"] c
  show ?thesis by (simp add: Mapping_default_def)
qed

subsection \<open>C6: a mapping at the wrong address is unmapped\<close>

text \<open>
  Claim C6. When a non-null address is requested and \<^verbatim>\<open>mmap\<close> succeeds at a
  different address \<open>a\<close>, \<^verbatim>\<open>try_map\<close> returns \<open>False\<close> and leaves the object
  unmapped; the mapping at \<open>a\<close>, live after the \<^verbatim>\<open>mmap\<close> call, is released by a
  \<^verbatim>\<open>munmap\<close> that returns 0 and gives back the kernel the call started from, where
  no mapping has base \<open>a\<close>. The check does not depend on the platform, so it holds
  on those that pass no fixed-placement flag.
\<close>

theorem mismatch_is_unmapped:
  assumes "base \<noteq> 0"
    and "os_mmap k (mmap_reply orc) base sz (map_flags (plat cfg) base) = (a, k1)"
    and "a \<noteq> MAP_FAILED" and "a \<noteq> base"
  shows "try_map cfg orc base \<lparr>baseAddress = MAP_FAILED, size' = sz\<rparr> k
           = Inr (False, \<lparr>baseAddress = MAP_FAILED, size' = sz\<rparr>, k) \<and>
         (a, sz) \<in> set (live k1) \<and> os_munmap k1 a sz = (0, k) \<and> a \<notin> fst ` set (live k)"
proof -
  from os_mmap_cases [OF assms(2)] assms(3)
  have k1: "k1 = k\<lparr>live := (a, sz) # live k\<rparr>" and us: "usable k a" by simp_all
  have um: "os_munmap k1 a sz = (0, k)" unfolding k1 by (rule os_munmap_just_mapped)
  from try_map_misplaced [of "\<lparr>baseAddress = MAP_FAILED, size' = sz\<rparr>" k orc base cfg a k1] assms
  have "try_map cfg orc base \<lparr>baseAddress = MAP_FAILED, size' = sz\<rparr> k
           = Inr (False, \<lparr>baseAddress = MAP_FAILED, size' = sz\<rparr>, k)" by simp
  with um us k1 show ?thesis by (simp add: usable_def)
qed

text \<open>
  On a platform that passes no fixed-placement flag: \<open>0x10000\<close> is requested while
  a mapping is there, and the system maps at \<open>0x30000\<close>.
\<close>

theorem mismatch_is_unmapped_witness:
  "(0x10000 :: addr) \<noteq> 0 \<and>
   MAP_FIXED \<notin> map_flags Generic 0x10000 \<and> MAP_FIXED_NOREPLACE \<notin> map_flags Generic 0x10000 \<and>
   os_mmap \<lparr>live = [(0x10000, 8192)], stray = []\<rparr> (Some 0x30000) 0x10000 4096 (map_flags Generic 0x10000)
     = (0x30000, \<lparr>live = [(0x30000, 4096), (0x10000, 8192)], stray = []\<rparr>) \<and>
   (0x30000 :: addr) \<noteq> MAP_FAILED \<and> (0x30000 :: addr) \<noteq> 0x10000 \<and>
   try_map \<lparr>plat = Generic, asserts = True\<rparr> \<lparr>mmap_reply = Some 0x30000, advise_rc = 0\<rparr> 0x10000
       \<lparr>baseAddress = MAP_FAILED, size' = 4096\<rparr> \<lparr>live = [(0x10000, 8192)], stray = []\<rparr>
     = Inr (False, \<lparr>baseAddress = MAP_FAILED, size' = 4096\<rparr>, \<lparr>live = [(0x10000, 8192)], stray = []\<rparr>)"
proof -
  have h1: "(0x10000 :: addr) \<noteq> 0" by simp
  have h2: "os_mmap \<lparr>live = [(0x10000, 8192)], stray = []\<rparr>
        (mmap_reply \<lparr>mmap_reply = Some 0x30000, advise_rc = 0\<rparr>) 0x10000 4096
        (map_flags (plat \<lparr>plat = Generic, asserts = True\<rparr>) 0x10000)
     = (0x30000, \<lparr>live = [(0x30000, 4096), (0x10000, 8192)], stray = []\<rparr>)"
    by (simp add: os_mmap_def usable_def map_flags_def is_linux_def MAP_FAILED_def)
  have h3: "(0x30000 :: addr) \<noteq> MAP_FAILED" by (simp add: MAP_FAILED_def)
  have h4: "(0x30000 :: addr) \<noteq> 0x10000" by simp
  have fl: "MAP_FIXED \<notin> map_flags Generic 0x10000 \<and> MAP_FIXED_NOREPLACE \<notin> map_flags Generic 0x10000"
    by (simp add: map_flags_def is_linux_def)
  from mismatch_is_unmapped [OF h1 h2 h3 h4] h2 h3 fl show ?thesis by simp
qed

subsection \<open>C7: failures that end the process\<close>

text \<open>
  Claim C7 says that a failed advice call after mapping, and a failed remapping in
  \<^verbatim>\<open>clear\<close>, always abort. Both are guarded by \<^verbatim>\<open>assert\<close> alone. With \<^verbatim>\<open>NDEBUG\<close>,
  \<^verbatim>\<open>try_map\<close> on Linux returns \<open>True\<close> and a valid object although \<^verbatim>\<open>madvise\<close>
  returned -1, and \<^verbatim>\<open>clear\<close> returns an unmapped object when the system refuses the
  remapping.
\<close>

theorem failed_advice_ignored_counterexample:
  "try_map \<lparr>plat = Linux_noreplace, asserts = False\<rparr> \<lparr>mmap_reply = Some 0x10000, advise_rc = - 1\<rparr>
      0 \<lparr>baseAddress = MAP_FAILED, size' = 4096\<rparr> \<lparr>live = [], stray = []\<rparr>
     = Inr (True, \<lparr>baseAddress = 0x10000, size' = 4096\<rparr>, \<lparr>live = [(0x10000, 4096)], stray = []\<rparr>) \<and>
   clear \<lparr>plat = Generic, asserts = False\<rparr> \<lparr>mmap_reply = None, advise_rc = 0\<rparr>
      \<lparr>baseAddress = 0x10000, size' = 4096\<rparr> \<lparr>live = [(0x10000, 4096)], stray = []\<rparr>
     = Inr (\<lparr>baseAddress = MAP_FAILED, size' = 4096\<rparr>, \<lparr>live = [], stray = []\<rparr>)"
  by (simp add: clear_def try_map_def os_mmap_def os_munmap_def usable_def
      map_flags_def is_linux_def post_map_advice_def MAP_FAILED_def operator_bool_def)

text \<open>
  Claim C7, as the code has it: when assertions are enabled. If the mapping succeeded
  at an accepted address and the platform's advice call returns non-zero, creation ends
  in the failed assertion on \<^verbatim>\<open>madvise\<close> or \<^verbatim>\<open>minherit\<close>; so a creation that returns a
  valid object on a platform with advice had return code 0. If \<^verbatim>\<open>clear\<close>, off Linux,
  on a valid object that owns its mapping, does not get its address back from the
  system, it ends in the failed assertion on \<^verbatim>\<open>success\<close>; and whenever \<^verbatim>\<open>clear\<close>
  returns, the object is valid.
\<close>

theorem failed_advice_or_remap_aborts:
  assumes "asserts cfg"
  shows "(os_mmap k (mmap_reply orc) base sz (map_flags (plat cfg) base) = (a, k1) \<and>
          a \<noteq> MAP_FAILED \<and> (base = 0 \<or> base = a) \<and>
          post_map_advice (plat cfg) = Some x \<and> advise_rc orc \<noteq> 0 \<longrightarrow>
            Mapping_at cfg orc base sz k = Inl x \<and> (x = Madvise_failed \<or> x = Minherit_failed)) \<and>
         (Mapping_at cfg orc base sz k = Inr (m3, k3) \<and> operator_bool m3 \<and>
          post_map_advice (plat cfg) \<noteq> None \<longrightarrow> advise_rc orc = 0) \<and>
         (operator_bool m \<and> baseAddress m \<noteq> 0 \<and> \<not> is_linux (plat cfg) \<and>
          (baseAddress m, size' m) \<in> set (live k2) \<and>
          fst (os_mmap (k2\<lparr>live := remove1 (baseAddress m, size' m) (live k2)\<rparr>) (mmap_reply orc)
                (baseAddress m) (size' m) (map_flags (plat cfg) (baseAddress m))) \<noteq> baseAddress m \<longrightarrow>
            clear cfg orc m k2 = Inl Could_not_recreate) \<and>
         (clear cfg orc m k2 = Inr (m', k') \<longrightarrow> operator_bool m')"
proof (intro conjI impI)
  assume h: "os_mmap k (mmap_reply orc) base sz (map_flags (plat cfg) base) = (a, k1) \<and>
          a \<noteq> MAP_FAILED \<and> (base = 0 \<or> base = a) \<and>
          post_map_advice (plat cfg) = Some x \<and> advise_rc orc \<noteq> 0"
  with try_map_advice_fails [of cfg "\<lparr>baseAddress = MAP_FAILED, size' = sz\<rparr>" k orc base a k1 x] assms
  have "try_map cfg orc base \<lparr>baseAddress = MAP_FAILED, size' = sz\<rparr> k = Inl x" by simp
  then show "Mapping_at cfg orc base sz k = Inl x" by (simp add: Mapping_at_def)
  from h show "x = Madvise_failed \<or> x = Minherit_failed"
    by (auto simp: post_map_advice_def split: if_splits)
next
  assume h: "Mapping_at cfg orc base sz k = Inr (m3, k3) \<and> operator_bool m3 \<and>
          post_map_advice (plat cfg) \<noteq> None"
  then obtain x where x: "post_map_advice (plat cfg) = Some x" by auto
  from h obtain b where
    tm: "try_map cfg orc base \<lparr>baseAddress = MAP_FAILED, size' = sz\<rparr> k = Inr (b, m3, k3)"
    by (auto simp: Mapping_at_def split: sum.splits)
  have b proof (rule ccontr)
    assume "\<not> b"
    with try_map_False [of cfg orc base "\<lparr>baseAddress = MAP_FAILED, size' = sz\<rparr>" k m3 k3] tm h
    show False by (simp add: operator_bool_def)
  qed
  with tm have "try_map cfg orc base \<lparr>baseAddress = MAP_FAILED, size' = sz\<rparr> k = Inr (True, m3, k3)"
    by simp
  from try_map_success_advice [OF this assms x] show "advise_rc orc = 0" .
next
  assume "operator_bool m \<and> baseAddress m \<noteq> 0 \<and> \<not> is_linux (plat cfg) \<and>
          (baseAddress m, size' m) \<in> set (live k2) \<and>
          fst (os_mmap (k2\<lparr>live := remove1 (baseAddress m, size' m) (live k2)\<rparr>) (mmap_reply orc)
                (baseAddress m) (size' m) (map_flags (plat cfg) (baseAddress m))) \<noteq> baseAddress m"
  with assms show "clear cfg orc m k2 = Inl Could_not_recreate"
    by (intro clear_remap_fails) simp_all
next
  assume "clear cfg orc m k2 = Inr (m', k')"
  with assms show "operator_bool m'" by (rule clear_returns_valid)
qed

text \<open>
  \<^verbatim>\<open>madvise\<close> returning -1 on Linux, and a refused remapping on macOS, both with
  assertions enabled.
\<close>

theorem failed_advice_or_remap_aborts_witness:
  "asserts \<lparr>plat = Linux_noreplace, asserts = True\<rparr> \<and>
   os_mmap \<lparr>live = [], stray = []\<rparr> (Some 0x10000) 0 4096 (map_flags Linux_noreplace 0)
     = (0x10000, \<lparr>live = [(0x10000, 4096)], stray = []\<rparr>) \<and>
   post_map_advice Linux_noreplace = Some Madvise_failed \<and>
   Mapping_at \<lparr>plat = Linux_noreplace, asserts = True\<rparr> \<lparr>mmap_reply = Some 0x10000, advise_rc = - 1\<rparr>
      0 4096 \<lparr>live = [], stray = []\<rparr> = Inl Madvise_failed \<and>
   operator_bool \<lparr>baseAddress = 0x10000, size' = 4096\<rparr> \<and> \<not> is_linux Apple \<and>
   fst (os_mmap \<lparr>live = [], stray = []\<rparr> None 0x10000 4096 (map_flags Apple 0x10000)) \<noteq> 0x10000 \<and>
   clear \<lparr>plat = Apple, asserts = True\<rparr> \<lparr>mmap_reply = None, advise_rc = 0\<rparr>
      \<lparr>baseAddress = 0x10000, size' = 4096\<rparr> \<lparr>live = [(0x10000, 4096)], stray = []\<rparr>
     = Inl Could_not_recreate"
proof -
  have a1: "asserts \<lparr>plat = Linux_noreplace, asserts = True\<rparr>" by simp
  have a2: "asserts \<lparr>plat = Apple, asserts = True\<rparr>" by simp
  have om: "os_mmap \<lparr>live = [], stray = []\<rparr> (Some 0x10000) 0 4096 (map_flags Linux_noreplace 0)
     = (0x10000, \<lparr>live = [(0x10000, 4096)], stray = []\<rparr>)"
    by (simp add: os_mmap_def usable_def map_flags_def is_linux_def MAP_FAILED_def)
  have ad: "post_map_advice Linux_noreplace = Some Madvise_failed"
    by (simp add: post_map_advice_def is_linux_def)
  have ne: "(0x10000 :: addr) \<noteq> MAP_FAILED" by (simp add: MAP_FAILED_def)
  have v: "operator_bool \<lparr>baseAddress = 0x10000, size' = 4096\<rparr>"
    by (simp add: operator_bool_def MAP_FAILED_def)
  have nl: "\<not> is_linux Apple" by (simp add: is_linux_def)
  have rf: "fst (os_mmap \<lparr>live = [], stray = []\<rparr> None 0x10000 4096 (map_flags Apple 0x10000)) \<noteq> 0x10000"
    by (simp add: os_mmap_def MAP_FAILED_def)
  from failed_advice_or_remap_aborts [OF a1,
      of "\<lparr>live = [], stray = []\<rparr>" "\<lparr>mmap_reply = Some 0x10000, advise_rc = - 1\<rparr>" 0 4096
         "0x10000" "\<lparr>live = [(0x10000, 4096)], stray = []\<rparr>" Madvise_failed]
    om ad ne
  have p1: "Mapping_at \<lparr>plat = Linux_noreplace, asserts = True\<rparr> \<lparr>mmap_reply = Some 0x10000, advise_rc = - 1\<rparr>
      0 4096 \<lparr>live = [], stray = []\<rparr> = Inl Madvise_failed"
    by simp
  from failed_advice_or_remap_aborts [OF a2,
      of _ "\<lparr>mmap_reply = None, advise_rc = 0\<rparr>" _ _ _ _ _ _ _
         "\<lparr>baseAddress = 0x10000, size' = 4096\<rparr>" "\<lparr>live = [(0x10000, 4096)], stray = []\<rparr>"]
    v nl rf
  have p2: "clear \<lparr>plat = Apple, asserts = True\<rparr> \<lparr>mmap_reply = None, advise_rc = 0\<rparr>
      \<lparr>baseAddress = 0x10000, size' = 4096\<rparr> \<lparr>live = [(0x10000, 4096)], stray = []\<rparr>
     = Inl Could_not_recreate"
    by simp
  from a1 om ad p1 v nl rf p2 show ?thesis by simp
qed

subsection \<open>C8: release exactly once\<close>

text \<open>
  Claim C8. The destructor of an invalid object leaves the kernel as it is; the
  destructor of a valid object that owns its mapping releases exactly that mapping.
  In every sequence of constructions, moves, \<^verbatim>\<open>clear\<close> calls and destructions, started
  without objects: no \<^verbatim>\<open>munmap\<close> assertion fails; if the sequence runs to its end,
  ownership holds (valid objects own distinct live mappings, and every \<^verbatim>\<open>munmap\<close> call
  that named no live mapping named \<^verbatim>\<open>MAP_FAILED\<close>, so no mapping was released twice);
  with assertions enabled there was no such call at all; and destroying any object
  next releases its mapping if it is valid and nothing if it is not.
\<close>

theorem release_exactly_once:
  "(\<not> operator_bool m \<longrightarrow> dtor cfg m k = Inr k) \<and>
   (operator_bool m \<and> (baseAddress m, size' m) \<in> set (live k) \<longrightarrow>
      dtor cfg m k = Inr (k\<lparr>live := remove1 (baseAddress m, size' m) (live k)\<rparr>)) \<and>
   run cfg xs (start ms) \<noteq> Inl Munmap_failed \<and>
   (\<forall>w'. run cfg xs (start ms) = Inr w' \<longrightarrow>
      owned w' \<and> (asserts cfg \<longrightarrow> stray (kern w') = []) \<and>
      (\<forall>i x. objs w' i = Some x \<longrightarrow>
         step cfg (Delete i) w' =
           Inr \<lparr>objs = (objs w')(i := None),
                kern = (if operator_bool x
                        then (kern w')\<lparr>live := remove1 (baseAddress x, size' x) (live (kern w'))\<rparr>
                        else kern w')\<rparr>))"
proof (intro conjI allI impI)
  show "dtor cfg m k = Inr k" if "\<not> operator_bool m"
    using that by (simp add: dtor_def)
  show "dtor cfg m k = Inr (k\<lparr>live := remove1 (baseAddress m, size' m) (live k)\<rparr>)"
    if "operator_bool m \<and> (baseAddress m, size' m) \<in> set (live k)"
    using that by (simp add: dtor_def os_munmap_def)
  show "run cfg xs (start ms) \<noteq> Inl Munmap_failed"
    by (rule run_no_munmap_failure [OF owned_start])
  show ow: "owned w'" if "run cfg xs (start ms) = Inr w'" for w'
    using that by (rule run_owned [OF owned_start])
  show "stray (kern w') = []" if "run cfg xs (start ms) = Inr w'" "asserts cfg" for w'
    using run_stray [OF that(2) that(1)] by (simp add: start_def)
  show "step cfg (Delete i) w' =
           Inr \<lparr>objs = (objs w')(i := None),
                kern = (if operator_bool x
                        then (kern w')\<lparr>live := remove1 (baseAddress x, size' x) (live (kern w'))\<rparr>
                        else kern w')\<rparr>"
    if "run cfg xs (start ms) = Inr w'" "objs w' i = Some x" for w' i x
    by (rule owned_Delete [OF ow [OF that(1)] that(2)])
qed

text \<open>
  An object is created, moved from, destroyed; the new owner is cleared and
  destroyed.
\<close>

theorem release_exactly_once_witness:
  "\<not> operator_bool Mapping_default \<and>
   dtor \<lparr>plat = Apple, asserts = True\<rparr> Mapping_default \<lparr>live = [(0x10000, 4096)], stray = []\<rparr>
     = Inr \<lparr>live = [(0x10000, 4096)], stray = []\<rparr> \<and>
   operator_bool \<lparr>baseAddress = 0x10000, size' = 4096\<rparr> \<and>
   dtor \<lparr>plat = Apple, asserts = True\<rparr> \<lparr>baseAddress = 0x10000, size' = 4096\<rparr>
       \<lparr>live = [(0x10000, 4096)], stray = []\<rparr>
     = Inr \<lparr>live = [], stray = []\<rparr> \<and>
   run \<lparr>plat = Apple, asserts = True\<rparr>
      [New_at 0 0 4096 \<lparr>mmap_reply = Some 0x10000, advise_rc = 0\<rparr>,
       New_moved 1 0,
       Delete 0,
       Clear 1 \<lparr>mmap_reply = Some 0x10000, advise_rc = 0\<rparr>]
      (start [])
     = Inr \<lparr>objs = [1 \<mapsto> \<lparr>baseAddress = 0x10000, size' = 4096\<rparr>],
            kern = \<lparr>live = [(0x10000, 4096)], stray = []\<rparr>\<rparr> \<and>
   owned \<lparr>objs = [1 \<mapsto> \<lparr>baseAddress = 0x10000, size' = 4096\<rparr>],
          kern = \<lparr>live = [(0x10000, 4096)], stray = []\<rparr>\<rparr> \<and>
   step \<lparr>plat = Apple, asserts = True\<rparr> (Delete 1)
      \<lparr>objs = [1 \<mapsto> \<lparr>baseAddress = 0x10000, size' = 4096\<rparr>],
        kern = \<lparr>live = [(0x10000, 4096)], stray = []\<rparr>\<rparr>
     = Inr \<lparr>objs = Map.empty, kern = \<lparr>live = [], stray = []\<rparr>\<rparr>"
proof -
  have r: "run \<lparr>plat = Apple, asserts = True\<rparr>
      [New_at 0 0 4096 \<lparr>mmap_reply = Some 0x10000, advise_rc = 0\<rparr>,
       New_moved 1 0,
       Delete 0,
       Clear 1 \<lparr>mmap_reply = Some 0x10000, advise_rc = 0\<rparr>]
      (start [])
     = Inr \<lparr>objs = [1 \<mapsto> \<lparr>baseAddress = 0x10000, size' = 4096\<rparr>],
            kern = \<lparr>live = [(0x10000, 4096)], stray = []\<rparr>\<rparr>"
    by (simp add: start_def Mapping_at_def try_map_def os_mmap_def os_munmap_def usable_def
      map_flags_def is_linux_def post_map_advice_def MAP_FAILED_def move_ctor_def
      clear_def dtor_def operator_bool_def)
  have v: "operator_bool \<lparr>baseAddress = 0x10000, size' = 4096\<rparr>"
    "\<not> operator_bool Mapping_default"
    by (simp_all add: operator_bool_def Mapping_default_def MAP_FAILED_def)
  from release_exactly_once
    [of "\<lparr>baseAddress = 0x10000, size' = 4096\<rparr>" "\<lparr>plat = Apple, asserts = True\<rparr>"
        "\<lparr>live = [(0x10000, 4096)], stray = []\<rparr>"
        "[New_at 0 0 4096 \<lparr>mmap_reply = Some 0x10000, advise_rc = 0\<rparr>, New_moved 1 0, Delete 0,
          Clear 1 \<lparr>mmap_reply = Some 0x10000, advise_rc = 0\<rparr>]" "[]"]
    release_exactly_once
    [of Mapping_default "\<lparr>plat = Apple, asserts = True\<rparr>"
        "\<lparr>live = [(0x10000, 4096)], stray = []\<rparr>" "[]" "[]"]
    r v
  show ?thesis by simp
qed

subsection \<open>C9: the size of an invalid object\<close>

text \<open>
  Claim C9. \<^verbatim>\<open>getSize\<close> has no assertion and returns the field. After any creation
  with size \<open>s\<close> that returns, it returns \<open>s\<close>; when the creation failed the object
  is exactly \<open>baseAddress = MAP_FAILED\<close>, \<open>size = s\<close>. A default-constructed object
  and the source of a move construction report size 0.
\<close>

theorem failed_creation_keeps_requested_size:
  "(Mapping_at cfg orc base s k = Inr (m', k') \<longrightarrow> getSize m' = s) \<and>
   (Mapping_at cfg orc base s k = Inr (m', k') \<and> \<not> operator_bool m' \<longrightarrow>
      m' = \<lparr>baseAddress = MAP_FAILED, size' = s\<rparr>) \<and>
   getSize Mapping_default = 0 \<and>
   getSize (snd (move_ctor other)) = 0 \<and> \<not> operator_bool (snd (move_ctor other))"
proof -
  have "getSize m' = s \<and> (\<not> operator_bool m' \<longrightarrow> m' = \<lparr>baseAddress = MAP_FAILED, size' = s\<rparr>)"
    if "Mapping_at cfg orc base s k = Inr (m', k')"
  proof -
    from that obtain b where
      tm: "try_map cfg orc base \<lparr>baseAddress = MAP_FAILED, size' = s\<rparr> k = Inr (b, m', k')"
      by (auto simp: Mapping_at_def split: sum.splits)
    show ?thesis
    proof (cases b)
      case True
      with try_map_True [of cfg orc base "\<lparr>baseAddress = MAP_FAILED, size' = s\<rparr>" k m' k'] tm
      show ?thesis by (auto simp: getSize_def operator_bool_def usable_def)
    next
      case False
      with try_map_False [of cfg orc base "\<lparr>baseAddress = MAP_FAILED, size' = s\<rparr>" k m' k'] tm
      show ?thesis by (auto simp: getSize_def)
    qed
  qed
  then show ?thesis
    by (simp add: getSize_def Mapping_default_def move_ctor_def operator_bool_def)
qed

text \<open>A refused mapping of 4096 bytes, the default object and a moved-from object.\<close>

theorem failed_creation_keeps_requested_size_witness:
  "Mapping_at \<lparr>plat = Linux_noreplace, asserts = True\<rparr> \<lparr>mmap_reply = None, advise_rc = 0\<rparr>
      0 4096 \<lparr>live = [], stray = []\<rparr>
     = Inr (\<lparr>baseAddress = MAP_FAILED, size' = 4096\<rparr>, \<lparr>live = [], stray = []\<rparr>) \<and>
   \<not> operator_bool \<lparr>baseAddress = MAP_FAILED, size' = 4096\<rparr> \<and>
   getSize \<lparr>baseAddress = MAP_FAILED, size' = 4096\<rparr> = 4096 \<and>
   getSize Mapping_default = 0 \<and>
   getSize (snd (move_ctor \<lparr>baseAddress = 0x10000, size' = 4096\<rparr>)) = 0"
proof -
  have h: "Mapping_at \<lparr>plat = Linux_noreplace, asserts = True\<rparr> \<lparr>mmap_reply = None, advise_rc = 0\<rparr>
      0 4096 \<lparr>live = [], stray = []\<rparr>
     = Inr (\<lparr>baseAddress = MAP_FAILED, size' = 4096\<rparr>, \<lparr>live = [], stray = []\<rparr>)"
    by (simp add: Mapping_at_def try_map_def os_mmap_def)
  have v: "\<not> operator_bool \<lparr>baseAddress = MAP_FAILED, size' = 4096\<rparr>"
    by (simp add: operator_bool_def)
  from failed_creation_keeps_requested_size
    [of "\<lparr>plat = Linux_noreplace, asserts = True\<rparr>" "\<lparr>mmap_reply = None, advise_rc = 0\<rparr>"
        0 4096 "\<lparr>live = [], stray = []\<rparr>" "\<lparr>baseAddress = MAP_FAILED, size' = 4096\<rparr>"
        "\<lparr>live = [], stray = []\<rparr>" "\<lparr>baseAddress = 0x10000, size' = 4096\<rparr>"] h v
  show ?thesis by simp
qed

subsection \<open>C10: self-assignment\<close>

text \<open>
  Claim C10. Move-assigning an object to itself changes nothing: the store of objects,
  hence the object's \<open>baseAddress\<close>, \<open>size\<close> and validity, and the kernel are as
  before.
\<close>

theorem self_move_assignment_is_identity:
  "move_assign this this h = h \<and>
   step cfg (Assign_moved this this) w = Inr w"
  by (simp add: move_assign_same)

end
